theory Spec2Isabelle
  imports Complex_Main "HOL-Library.Word"
begin

section \<open>Errors\<close>

text \<open>
  Go error values. The two \<open>strconv\<close> errors and the two \<open>fmt.Errorf\<close> errors of
  \<open>types/volume.go\<close> and the three errors of \<open>CreateContainer\<close> are kept apart; every
  error coming back from the engine, the store, the allocator or a lock is an opaque value
  carrying its text.
\<close>

datatype error =
    ErrSyntax
  | ErrRange
  | ErrInvalidVolume string
  | ErrDestMissing
  | ErrMonopolySize
  | ErrBadCount
  | ErrBadMemory
  | ErrBadCPU
  | ErrExternal string

section \<open>The Go library functions used by the volume model\<close>

text \<open>
  \<open>strings.Split(s, ":")\<close>: the substrings between the colons, one more than there are
  colons; never the empty slice (the \<open>[]\<close> branch of the case below is not reachable and
  only makes the function total).
\<close>

fun Split :: "string \<Rightarrow> string list" where
  "Split [] = [[]]"
| "Split (c # cs) =
     (if c = CHR '':'' then [] # Split cs
      else (case Split cs of [] \<Rightarrow> [[c]] | p # ps \<Rightarrow> (c # p) # ps))"

text \<open>\<open>strings.HasSuffix\<close>, \<open>strings.Contains\<close> for a one-byte pattern, \<open>strings.ReplaceAll(s, "m", "")\<close>.\<close>

definition HasSuffix :: "string \<Rightarrow> string \<Rightarrow> bool" where
  "HasSuffix s suffix =
     (length suffix \<le> length s \<and> drop (length s - length suffix) s = suffix)"

definition Contains :: "string \<Rightarrow> char \<Rightarrow> bool" where
  "Contains s c = (c \<in> set s)"

definition ReplaceAll_empty :: "string \<Rightarrow> char \<Rightarrow> string" where
  "ReplaceAll_empty s c = filter (\<lambda>x. x \<noteq> c) s"

text \<open>
  \<open>strconv.ParseUint(s, 10, 64)\<close>. The loop reads one byte at a time; a byte that is not
  a decimal digit is a syntax error; \<open>n \<ge> cutoff\<close> (\<open>cutoff = maxUint64 / 10 + 1\<close>) and
  the wrapped or too large \<open>n1 = n * 10 + d\<close> are range errors. The accumulator is a
  natural number here, so Go's test \<open>n1 < n || n1 > maxVal\<close> on the wrapped sum is the test
  \<open>n * 10 + d > maxVal\<close> on the exact one (\<open>n * 10\<close> itself cannot wrap below the cutoff).
\<close>

definition maxVal :: nat where
  "maxVal = 2 ^ 64 - 1"

definition cutoff10 :: nat where
  "cutoff10 = maxVal div 10 + 1"

definition is_digit :: "char \<Rightarrow> bool" where
  "is_digit c = (48 \<le> (of_char c :: nat) \<and> (of_char c :: nat) \<le> 57)"

definition digit_val :: "char \<Rightarrow> nat" where
  "digit_val c = of_char c - 48"

fun ParseUint_loop :: "nat \<Rightarrow> string \<Rightarrow> error + nat" where
  "ParseUint_loop n [] = Inr n"
| "ParseUint_loop n (c # cs) =
     (if \<not> is_digit c then Inl ErrSyntax
      else if n \<ge> cutoff10 then Inl ErrRange
      else if n * 10 + digit_val c > maxVal then Inl ErrRange
      else ParseUint_loop (n * 10 + digit_val c) cs)"

definition ParseUint :: "string \<Rightarrow> error + nat" where
  "ParseUint s = (if s = [] then Inl ErrSyntax else ParseUint_loop 0 s)"

text \<open>
  \<open>strconv.ParseInt(s, 10, 64)\<close>: an optional sign, then \<open>ParseUint\<close>; the magnitude
  must be below \<open>2 ^ 63\<close>, or at most \<open>2 ^ 63\<close> under a minus sign. The result is an
  \<open>int64\<close>.
\<close>

type_synonym int64 = "64 word"

definition ParseInt :: "string \<Rightarrow> error + int64" where
  "ParseInt s =
     (case s of
        [] \<Rightarrow> Inl ErrSyntax
      | c # cs \<Rightarrow>
          (let neg = (c = CHR ''-'');
               s' = (if c = CHR ''+'' \<or> c = CHR ''-'' then cs else s)
           in case ParseUint s' of
                Inl e \<Rightarrow> Inl e
              | Inr un \<Rightarrow>
                  if \<not> neg \<and> un \<ge> 2 ^ 63 then Inl ErrRange
                  else if neg \<and> un > 2 ^ 63 then Inl ErrRange
                  else Inr (if neg then - (of_nat un) else of_nat un)))"

text \<open>
  \<open>fmt.Sprintf("%d", n)\<close>: the decimal digits, a minus sign first when negative. An
  \<open>int64\<close> is printed through its signed value \<open>sint\<close>.
\<close>

definition digit_char :: "nat \<Rightarrow> char" where
  "digit_char d = char_of (48 + d)"

function FormatUint :: "nat \<Rightarrow> string" where
  "FormatUint n = (if n < 10 then [digit_char n] else FormatUint (n div 10) @ [digit_char (n mod 10)])"
  by pat_completeness auto
termination
  by (relation "measure (\<lambda>n. n)") auto

declare FormatUint.simps [simp del]

definition FormatInt :: "int \<Rightarrow> string" where
  "FormatInt n = (if n < 0 then CHR ''-'' # FormatUint (nat (- n)) else FormatUint (nat n))"

section \<open>Volume bindings (types/volume.go)\<close>

text \<open>
  Modelled from the spec: the constant \<open>AUTO\<close> is declared outside the source files at
  hand; the spec calls it the sentinel \<open>AUTO\<close> that a scheduled source ends in.
\<close>

definition AUTO :: string where
  "AUTO = ''AUTO''"

record VolumeBinding =
  Source :: string
  Destination :: string
  Flags :: string
  SizeInBytes :: int64

definition RequireSchedule :: "VolumeBinding \<Rightarrow> bool" where
  "RequireSchedule vb = (HasSuffix (Source vb) AUTO \<and> Flags vb \<noteq> [])"

definition RequireInfinity :: "VolumeBinding \<Rightarrow> bool" where
  "RequireInfinity vb =
     (HasSuffix (Source vb) AUTO \<and> \<not> Contains (Flags vb) CHR ''m'' \<and> SizeInBytes vb = 0)"

definition RequireMonopoly :: "VolumeBinding \<Rightarrow> bool" where
  "RequireMonopoly vb = (HasSuffix (Source vb) AUTO \<and> Contains (Flags vb) CHR ''m'')"

definition Validate :: "VolumeBinding \<Rightarrow> error option" where
  "Validate vb =
     (if Destination vb = [] then Some ErrDestMissing
      else if RequireMonopoly vb \<and> SizeInBytes vb = 0 then Some ErrMonopolySize
      else None)"

text \<open>
  \<open>NewVolumeBinding\<close> returns a pointer and an error. After a parse error the pointer is
  nil; after a failed \<open>Validate\<close> the binding is returned together with the error.
\<close>

definition NewVolumeBinding :: "string \<Rightarrow> VolumeBinding option \<times> error option" where
  "NewVolumeBinding volume =
     (let parts = Split volume in
      if length parts = 2 then
        (let vb = \<lparr>Source = parts ! 0, Destination = parts ! 1, Flags = [], SizeInBytes = 0\<rparr>
         in (Some vb, Validate vb))
      else if length parts = 3 then
        (let vb = \<lparr>Source = parts ! 0, Destination = parts ! 1, Flags = parts ! 2,
                   SizeInBytes = 0\<rparr>
         in (Some vb, Validate vb))
      else if length parts = 4 then
        (case ParseInt (parts ! 3) of
           Inl e \<Rightarrow> (None, Some e)
         | Inr sz \<Rightarrow>
             (let vb = \<lparr>Source = parts ! 0, Destination = parts ! 1, Flags = parts ! 2,
                        SizeInBytes = sz\<rparr>
              in (Some vb, Validate vb)))
      else (None, Some (ErrInvalidVolume volume)))"

definition ToString :: "VolumeBinding \<Rightarrow> bool \<Rightarrow> string" where
  "ToString vb normalise =
     (let flags = (if normalise then ReplaceAll_empty (Flags vb) CHR ''m'' else Flags vb)
      in if Flags vb = [] \<and> SizeInBytes vb = 0
           then Source vb @ '':'' @ Destination vb
         else if SizeInBytes vb = 0
           then Source vb @ '':'' @ Destination vb @ '':'' @ flags
         else Source vb @ '':'' @ Destination vb @ '':'' @ flags @ '':''
                @ FormatInt (sint (SizeInBytes vb)))"

text \<open>
  \<open>VolumeBindings\<close> is a slice of pointers to bindings. No function below writes through
  one of the pointers, so the slice is a list of values.
\<close>

type_synonym VolumeBindings = "VolumeBinding list"

text \<open>\<open>ToStringSlice(sorted = false, normalize)\<close>, the only way the deployment code calls it.\<close>

definition ToStringSlice_unsorted :: "VolumeBindings \<Rightarrow> bool \<Rightarrow> string list" where
  "ToStringSlice_unsorted vbs normalise = map (\<lambda>vb. ToString vb normalise) vbs"

definition AdditionalStorage :: "VolumeBindings \<Rightarrow> int64" where
  "AdditionalStorage vbs = sum_list (map SizeInBytes (filter (\<lambda>vb. \<not> RequireSchedule vb) vbs))"

text \<open>
  Modelled from the spec: \<open>VolumePlan\<close>, \<open>VolumeMap\<close>, \<open>GetVolumeMap\<close> and
  \<open>GetResourceID\<close> are declared outside the source files at hand. In the spec a plan maps
  a volume binding to a volume map that assigns it a concrete resource ID, and
  \<open>GetVolumeMap(vb)\<close> looks the binding up (nil when the plan has nothing for it).
\<close>

record VolumeMap =
  ResourceID :: string

type_synonym VolumePlan = "(VolumeBinding \<times> VolumeMap) list"

definition GetResourceID :: "VolumeMap \<Rightarrow> string" where
  "GetResourceID vmap = ResourceID vmap"

definition GetVolumeMap :: "VolumePlan \<Rightarrow> VolumeBinding \<Rightarrow> VolumeMap option" where
  "GetVolumeMap plan vb = map_of plan vb"

fun ApplyPlan :: "VolumeBindings \<Rightarrow> VolumePlan \<Rightarrow> VolumeBindings" where
  "ApplyPlan [] plan = []"
| "ApplyPlan (vb # vbs) plan =
     (let newVb = \<lparr>Source = Source vb, Destination = Destination vb, Flags = Flags vb,
                   SizeInBytes = SizeInBytes vb\<rparr>
      in (case GetVolumeMap plan vb of
            None \<Rightarrow> newVb
          | Some vmap \<Rightarrow> newVb\<lparr>Source := GetResourceID vmap\<rparr>) # ApplyPlan vbs plan)"

text \<open>
  Modelled from the spec: the data model of a plan. It is a mapping from scheduled volume
  bindings to volume maps, so every binding it holds a volume map for requires a schedule.
\<close>

definition VolumePlan_ok :: "VolumePlan \<Rightarrow> bool" where
  "VolumePlan_ok plan = list_all (\<lambda>entry. RequireSchedule (fst entry)) plan"

text \<open>
  \<open>Merge\<close>. \<open>sizeMap\<close> is a Go map from \<open>[3]string{Source, Destination, Flags}\<close> to
  \<open>int64\<close>; it is an association list with one entry for each key here. \<open>sizeMap_add\<close>
  is the body of the first loop for a scheduled binding: \<open>+=\<close> when the key is there, a
  new entry otherwise. The sum is an \<open>int64\<close> sum and wraps around. Go ranges over the
  map in an order of its own choosing; the second loop below follows the order in which
  the keys came in, one of the orders Go may take.
\<close>

type_synonym sizeMap = "((string \<times> string \<times> string) \<times> int64) list"

fun sizeMap_add :: "sizeMap \<Rightarrow> string \<times> string \<times> string \<Rightarrow> int64 \<Rightarrow> sizeMap" where
  "sizeMap_add [] key sz = [(key, sz)]"
| "sizeMap_add ((k, v) # m) key sz =
     (if k = key then (k, v + sz) # m else (k, v) # sizeMap_add m key sz)"

fun Merge_loop :: "VolumeBindings \<Rightarrow> sizeMap \<times> VolumeBindings \<Rightarrow> sizeMap \<times> VolumeBindings" where
  "Merge_loop [] st = st"
| "Merge_loop (vb # vbs) (m, hardVolumes) =
     (if \<not> RequireSchedule vb then Merge_loop vbs (m, hardVolumes @ [vb])
      else Merge_loop vbs
             (sizeMap_add m (Source vb, Destination vb, Flags vb) (SizeInBytes vb), hardVolumes))"

fun softVolumes_of :: "sizeMap \<Rightarrow> VolumeBindings" where
  "softVolumes_of [] = []"
| "softVolumes_of (((src, dst, flags), sz) # m) =
     (if sint sz < 0 then softVolumes_of m
      else \<lparr>Source = src, Destination = dst, Flags = flags, SizeInBytes = sz\<rparr> # softVolumes_of m)"

definition Merge :: "VolumeBindings \<Rightarrow> VolumeBindings \<Rightarrow> VolumeBindings \<times> VolumeBindings \<times> error option" where
  "Merge vbs vbs2 =
     (case Merge_loop (vbs @ vbs2) ([], []) of
        (m, hardVolumes) \<Rightarrow> (softVolumes_of m, hardVolumes, None))"

text \<open>
  For stating what \<open>Merge\<close> computes: the key of a binding, the keys of the scheduled
  bindings of a list, and the \<open>int64\<close> sum of the sizes of the scheduled bindings of a
  list under one key.
\<close>

definition key_of :: "VolumeBinding \<Rightarrow> string \<times> string \<times> string" where
  "key_of vb = (Source vb, Destination vb, Flags vb)"

definition scheduled_keys :: "VolumeBindings \<Rightarrow> (string \<times> string \<times> string) set" where
  "scheduled_keys xs = key_of ` {vb \<in> set xs. RequireSchedule vb}"

definition total :: "string \<times> string \<times> string \<Rightarrow> VolumeBindings \<Rightarrow> int64" where
  "total k xs =
     sum_list (map SizeInBytes (filter (\<lambda>vb. RequireSchedule vb \<and> key_of vb = k) xs))"

section \<open>Deployment (cluster/calcium/create.go)\<close>

subsection \<open>Data\<close>

text \<open>
  The structs of the deployment, with the fields that the functions below read or write.
  Isabelle record fields are global names, so the fields of each struct carry a short
  prefix: \<open>o_\<close> for \<open>DeployOptions\<close>, \<open>e_\<close> for its entrypoint, \<open>ni_\<close> for
  \<open>NodeInfo\<close>, \<open>n_\<close> for \<open>Node\<close>, \<open>c_\<close> for \<open>Container\<close>, \<open>m_\<close> for
  \<open>CreateContainerMessage\<close>, \<open>cfg_\<close> for \<open>VirtualizationCreateOptions\<close> and \<open>i_\<close> for
  \<open>VirtualizationInfo\<close>. A Go \<open>map[string]string\<close> is a map \<open>string \<rightharpoonup> string\<close>; a
  pointer that may be nil is an \<open>option\<close>. \<open>CPUQuota\<close> is a \<open>float64\<close> of which
  only the sign is looked at.
\<close>

type_synonym CPUMap = "(string \<times> int) list"

record Hook =
  AfterStart :: "string list"
  Force :: bool

record Entrypoint =
  e_Name :: string
  e_Privileged :: bool
  e_Publish :: "string list"
  e_Hook :: "Hook option"

record DeployOptions =
  o_Name :: string
  o_Entrypoint :: Entrypoint
  o_Podname :: string
  o_Image :: string
  o_Count :: int
  o_CPUQuota :: real
  o_Memory :: int64
  o_Storage :: int64
  o_Env :: "string list"
  o_User :: string
  o_Volumes :: VolumeBindings
  o_Labels :: "string \<rightharpoonup> string"
  o_Data :: "string list"
  o_AfterCreate :: "string list"
  o_IgnoreHook :: bool

record NodeInfo =
  ni_Name :: string
  ni_Deploy :: int
  ni_CPUPlan :: "CPUMap list"
  ni_VolumePlans :: "VolumePlan list"

record Node =
  n_Name :: string

record Container =
  c_ID :: string
  c_Name :: string
  c_Podname :: string
  c_Nodename :: string
  c_CPU :: CPUMap
  c_Memory :: int64
  c_Storage :: int64
  c_Hook :: "Hook option"
  c_Privileged :: bool
  c_Image :: string
  c_Env :: "string list"
  c_User :: string
  c_Labels :: "string \<rightharpoonup> string"
  c_Volumes :: VolumeBindings
  c_VolumePlan :: VolumePlan

record CreateContainerMessage =
  m_Podname :: string
  m_Nodename :: string
  m_ContainerID :: string
  m_ContainerName :: string
  m_Error :: "error option"
  m_CPU :: CPUMap
  m_Memory :: int64
  m_Storage :: int64
  m_VolumePlan :: VolumePlan
  m_Publish :: "(string \<times> string list) list"
  m_Hook :: "string list"

record VirtualizationCreateOptions =
  cfg_Seq :: int
  cfg_Name :: string
  cfg_Image :: string
  cfg_User :: string
  cfg_CPU :: CPUMap
  cfg_Memory :: int64
  cfg_Storage :: int64
  cfg_Privileged :: bool
  cfg_Publish :: "string list"
  cfg_Env :: "string list"
  cfg_Volumes :: "string list"
  cfg_Labels :: "string \<rightharpoonup> string"

record VirtualizationInfo =
  i_User :: string
  i_Networks :: "(string \<times> string) list option"

datatype Action = ActionIncr | ActionDecr

subsection \<open>The engine, the store and the result channel\<close>

text \<open>
  Every call that leaves the process, and every operation on the result channel and the
  wait group, is written to a log in the order in which it happens.
\<close>

datatype call =
    CallGetNode string
  | CallPullImage string string
  | CallVirtualizationCreate string int
  | CallGetReader string
  | CallSendFile string string
  | CallStartContainer string
  | CallInspect string
  | CallAddContainer string
  | CallRemoveContainer string
  | CallLockNode string
  | CallUpdateNodeResource string Action
  | Send "CreateContainerMessage option"
  | CallUpdateProcessing string int
  | CallDeleteProcessing string
  | WgDone
  | Close

text \<open>
  What the outside answers to the calls made for one replica: any value of this record is
  a possible run of the engine, the store, the locks and the helpers of \<open>utils\<close> that are
  declared outside the source files at hand (\<open>RandomString\<close>, \<open>EncodeMetaInLabel\<close>,
  \<open>MakePublishInfo\<close>). A cancelled or timed out context shows as the error the call
  returns. \<open>World\<close> has one such record for each global replica number.
\<close>

record ReplicaWorld =
  w_GetNode :: "error + Node"
  w_pullImage :: "error option"
  w_RandomString :: string
  w_EncodeMetaInLabel :: string
  w_VirtualizationCreate :: "error + string"
  w_GetReader :: "string \<Rightarrow> error option"
  w_doSendFileToContainer :: "string \<Rightarrow> error option"
  w_doStartContainer :: "string list \<times> error option"
  w_Inspect :: "error + VirtualizationInfo"
  w_MakePublishInfo :: "(string \<times> string list) list"
  w_AddContainer :: "error option"
  w_doRemoveContainer :: "error option"
  w_withNodeLocked :: "error + Node"
  w_UpdateNodeResource :: "error option"

type_synonym World = "int \<Rightarrow> ReplicaWorld"

subsection \<open>The transaction runner\<close>

text \<open>
  Modelled from the spec: \<open>utils.Txn\<close> is declared outside the source files at hand. The
  spec (4.2) has it run \<open>try\<close>; run \<open>then\<close> when \<open>try\<close> returned no error; run
  \<open>rollback\<close>, when there is one, after \<open>try\<close> or \<open>then\<close> returned an error; and
  return the first error met (the error of the rollback is logged only). The three
  closures share the variables they capture: here they pass a state along.
\<close>

definition Txn_rollback ::
  "('s \<Rightarrow> error option \<times> 's) option \<Rightarrow> error \<Rightarrow> 's \<Rightarrow> error option \<times> 's" where
  "Txn_rollback rollback_f e s =
     (case rollback_f of
        None \<Rightarrow> (Some e, s)
      | Some rb \<Rightarrow> (Some e, snd (rb s)))"

definition Txn ::
  "('s \<Rightarrow> error option \<times> 's) \<Rightarrow> ('s \<Rightarrow> error option \<times> 's)
     \<Rightarrow> ('s \<Rightarrow> error option \<times> 's) option \<Rightarrow> 's \<Rightarrow> error option \<times> 's" where
  "Txn try_f then_f rollback_f s =
     (case try_f s of
        (Some e, s1) \<Rightarrow> Txn_rollback rollback_f e s1
      | (None, s1) \<Rightarrow>
          (case then_f s1 of
             (Some e, s2) \<Rightarrow> Txn_rollback rollback_f e s2
           | (None, s2) \<Rightarrow> (None, s2)))"

subsection \<open>doMakeContainerOptions\<close>

text \<open>
  Modelled from the spec: the label keys \<open>cluster.ERUMark\<close> and \<open>cluster.LabelMeta\<close> and
  \<open>utils.MakeContainerName\<close> are declared outside the source files at hand. The spec
  names the labels \<open>ERU_MARK\<close> and \<open>ERU_META\<close> and the container
  \<open><appName>_<entrypointName>_<suffix>\<close>.
\<close>

definition ERUMark :: string where
  "ERUMark = ''ERU_MARK''"

definition LabelMeta :: string where
  "LabelMeta = ''ERU_META''"

definition MakeContainerName :: "string \<Rightarrow> string \<Rightarrow> string \<Rightarrow> string" where
  "MakeContainerName appname entrypoint suffix = appname @ ''_'' @ entrypoint @ ''_'' @ suffix"

text \<open>
  \<open>suffix\<close> is what \<open>utils.RandomString(6)\<close> returned and \<open>meta\<close> what
  \<open>utils.EncodeMetaInLabel\<close> returned for the entrypoint's \<open>Publish\<close> and
  \<open>HealthCheck\<close>. The labels start as the map literal with the two mandatory keys; the
  loop over \<open>opts.Labels\<close> then stores every user label into it, which is \<open>++\<close>. The
  options that are plain copies of fields left out of \<open>DeployOptions\<close> above, or that
  come from further helpers outside the source files (\<open>GetNUMANode\<close>, \<open>ToLiteral\<close>,
  \<open>MakeCommandLineArgs\<close>), are not kept.
\<close>

definition doMakeContainerOptions ::
  "string \<Rightarrow> string \<Rightarrow> int \<Rightarrow> CPUMap \<Rightarrow> VolumePlan \<Rightarrow> DeployOptions \<Rightarrow> Node
     \<Rightarrow> VirtualizationCreateOptions" where
  "doMakeContainerOptions suffix meta index cpumap volumePlan opts node =
     \<lparr>cfg_Seq = index,
      cfg_Name = MakeContainerName (o_Name opts) (e_Name (o_Entrypoint opts)) suffix,
      cfg_Image = o_Image opts,
      cfg_User = o_User opts,
      cfg_CPU = cpumap,
      cfg_Memory = o_Memory opts,
      cfg_Storage = o_Storage opts,
      cfg_Privileged = e_Privileged (o_Entrypoint opts),
      cfg_Publish = e_Publish (o_Entrypoint opts),
      cfg_Env = o_Env opts @
        [''APP_NAME='' @ o_Name opts,
         ''ERU_POD='' @ o_Podname opts,
         ''ERU_NODE_NAME='' @ n_Name node,
         ''ERU_CONTAINER_NO='' @ FormatInt index,
         ''ERU_MEMORY='' @ FormatInt (sint (o_Memory opts)),
         ''ERU_STORAGE='' @ FormatInt (sint (o_Storage opts))],
      cfg_Volumes = ToStringSlice_unsorted (ApplyPlan (o_Volumes opts) volumePlan) True,
      cfg_Labels = [ERUMark \<mapsto> ''1'', LabelMeta \<mapsto> meta] ++ o_Labels opts\<rparr>"

subsection \<open>doCreateAndStartContainer\<close>

text \<open>
  The variables that the three closures of \<open>doCreateAndStartContainer\<close> capture:
  \<open>container\<close>, \<open>createContainerMessage\<close> and the function's \<open>err\<close>, together with the
  log of calls.
\<close>

record LaunchState =
  container :: Container
  createContainerMessage :: CreateContainerMessage
  err :: "error option"
  calls :: "call list"

text \<open>
  The loop over \<open>opts.Data\<close>, in the order in which Go ranges over the map. The loop body
  declares an \<open>err\<close> of its own (\<open>reader, err := readerManager.GetReader()\<close>): the errors
  of \<open>GetReader\<close> and of \<open>doSendFileToContainer\<close> are returned from the closure but never
  stored in the \<open>err\<close> of the function, so this loop only returns an error and a log.
\<close>

fun send_data :: "ReplicaWorld \<Rightarrow> string \<Rightarrow> string list \<Rightarrow> call list \<Rightarrow> error option \<times> call list" where
  "send_data w cid [] cs = (None, cs)"
| "send_data w cid (dst # dsts) cs =
     (case w_GetReader w dst of
        Some e \<Rightarrow> (Some e, cs @ [CallGetReader dst])
      | None \<Rightarrow>
          (case w_doSendFileToContainer w dst of
             Some e \<Rightarrow> (Some e, cs @ [CallGetReader dst, CallSendFile cid dst])
           | None \<Rightarrow> send_data w cid dsts (cs @ [CallGetReader dst, CallSendFile cid dst])))"

text \<open>The hook for the first start: \<open>AfterCreate\<close> in front of the entrypoint's \<open>AfterStart\<close>.\<close>

definition merge_hook :: "DeployOptions \<Rightarrow> Hook option \<Rightarrow> Hook option" where
  "merge_hook opts hook =
     (case hook of
        None \<Rightarrow> None
      | Some h \<Rightarrow>
          if length (o_AfterCreate opts) > 0
          then Some \<lparr>AfterStart = o_AfterCreate opts @ AfterStart h, Force = Force h\<rparr>
          else Some h)"

text \<open>The first closure: make the options, create, copy the data in, start, inspect.\<close>

definition create_try ::
  "ReplicaWorld \<Rightarrow> int \<Rightarrow> Node \<Rightarrow> DeployOptions \<Rightarrow> CPUMap \<Rightarrow> VolumePlan \<Rightarrow> LaunchState
     \<Rightarrow> error option \<times> LaunchState" where
  "create_try w no node opts cpu volumePlan s =
     (let config = doMakeContainerOptions (w_RandomString w) (w_EncodeMetaInLabel w) no cpu
                     volumePlan opts node;
          s1 = s\<lparr>container := (container s)\<lparr>c_Name := cfg_Name config,
                                               c_Labels := cfg_Labels config\<rparr>,
                 createContainerMessage :=
                   (createContainerMessage s)\<lparr>m_ContainerName := cfg_Name config\<rparr>,
                 calls := calls s @ [CallVirtualizationCreate (n_Name node) no]\<rparr>
      in case w_VirtualizationCreate w of
           Inl e \<Rightarrow> (Some e, s1\<lparr>err := Some e\<rparr>)
         | Inr cid \<Rightarrow>
             (let s2 = s1\<lparr>err := None, container := (container s1)\<lparr>c_ID := cid\<rparr>\<rparr>
              in case send_data w cid (o_Data opts) (calls s2) of
                   (Some e, cs) \<Rightarrow> (Some e, s2\<lparr>calls := cs\<rparr>)
                 | (None, cs) \<Rightarrow>
                     (let s3 = s2\<lparr>container :=
                                     (container s2)\<lparr>c_Hook := merge_hook opts (c_Hook (container s2))\<rparr>,
                                   calls := cs @ [CallStartContainer cid]\<rparr>;
                          s4 = s3\<lparr>createContainerMessage :=
                                     (createContainerMessage s3)\<lparr>m_Hook := fst (w_doStartContainer w)\<rparr>,
                                   err := snd (w_doStartContainer w)\<rparr>
                      in case snd (w_doStartContainer w) of
                           Some e \<Rightarrow> (Some e, s4)
                         | None \<Rightarrow>
                             (case w_Inspect w of
                                Inl e \<Rightarrow>
                                  (Some e, s4\<lparr>err := Some e, calls := calls s4 @ [CallInspect cid]\<rparr>)
                              | Inr info \<Rightarrow>
                                  (None,
                                   s4\<lparr>err := None,
                                      calls := calls s4 @ [CallInspect cid],
                                      createContainerMessage :=
                                        (if i_Networks info \<noteq> None
                                         then (createContainerMessage s4)\<lparr>m_Publish := w_MakePublishInfo w\<rparr>
                                         else createContainerMessage s4),
                                      container :=
                                        (container s4)\<lparr>c_User := i_User info,
                                                        c_Hook := e_Hook (o_Entrypoint opts)\<rparr>\<rparr>)))))"

text \<open>The second closure: store the container, then put its ID into the message.\<close>

definition create_then :: "ReplicaWorld \<Rightarrow> LaunchState \<Rightarrow> error option \<times> LaunchState" where
  "create_then w s =
     (let s1 = s\<lparr>calls := calls s @ [CallAddContainer (c_ID (container s))]\<rparr>
      in case w_AddContainer w of
           Some e \<Rightarrow> (Some e, s1\<lparr>err := Some e\<rparr>)
         | None \<Rightarrow>
             (None, s1\<lparr>err := None,
                       createContainerMessage :=
                         (createContainerMessage s1)\<lparr>m_ContainerID := c_ID (container s1)\<rparr>\<rparr>))"

text \<open>The third closure, the rollback.\<close>

definition create_rollback :: "ReplicaWorld \<Rightarrow> LaunchState \<Rightarrow> error option \<times> LaunchState" where
  "create_rollback w s =
     (let s1 = s\<lparr>createContainerMessage := (createContainerMessage s)\<lparr>m_Error := err s\<rparr>\<rparr>
      in if err s1 \<noteq> None \<and> c_ID (container s1) \<noteq> []
         then (let s2 = s1\<lparr>calls := calls s1 @ [CallRemoveContainer (c_ID (container s1))]\<rparr>
               in case w_doRemoveContainer w of
                    Some e \<Rightarrow> (Some e, s2)
                  | None \<Rightarrow>
                      (None, s2\<lparr>createContainerMessage :=
                                  (createContainerMessage s2)\<lparr>m_ContainerID := []\<rparr>\<rparr>))
         else (None, s1))"

definition doCreateAndStartContainer ::
  "ReplicaWorld \<Rightarrow> int \<Rightarrow> Node \<Rightarrow> DeployOptions \<Rightarrow> CPUMap \<Rightarrow> VolumePlan
     \<Rightarrow> CreateContainerMessage \<times> call list" where
  "doCreateAndStartContainer w no node opts cpu volumePlan =
     (let s0 =
        \<lparr>container =
           \<lparr>c_ID = [], c_Name = [], c_Podname = o_Podname opts, c_Nodename = n_Name node,
            c_CPU = cpu, c_Memory = o_Memory opts, c_Storage = o_Storage opts,
            c_Hook = e_Hook (o_Entrypoint opts), c_Privileged = e_Privileged (o_Entrypoint opts),
            c_Image = o_Image opts, c_Env = o_Env opts, c_User = o_User opts,
            c_Labels = Map.empty, c_Volumes = o_Volumes opts, c_VolumePlan = volumePlan\<rparr>,
         createContainerMessage =
           \<lparr>m_Podname = o_Podname opts, m_Nodename = n_Name node, m_ContainerID = [],
            m_ContainerName = [], m_Error = None, m_CPU = cpu, m_Memory = o_Memory opts,
            m_Storage = o_Storage opts, m_VolumePlan = volumePlan, m_Publish = [],
            m_Hook = []\<rparr>,
         err = None,
         calls = []\<rparr>;
          s = snd (Txn (create_try w no node opts cpu volumePlan) (create_then w)
                     (Some (create_rollback w)) s0)
      in (createContainerMessage s, calls s))"

subsection \<open>doGetAndPrepareNode and doCreateContainerOnNode\<close>

definition doGetAndPrepareNode ::
  "ReplicaWorld \<Rightarrow> string \<Rightarrow> string \<Rightarrow> (Node option \<times> error option) \<times> call list" where
  "doGetAndPrepareNode w nodename img =
     (case w_GetNode w of
        Inl e \<Rightarrow> ((None, Some e), [CallGetNode nodename])
      | Inr node \<Rightarrow>
          ((Some node, w_pullImage w), [CallGetNode nodename, CallPullImage (n_Name node) img]))"

text \<open>
  The variables that the closures of one turn of the loop of \<open>doCreateContainerOnNode\<close>
  capture: the slice \<open>ms\<close> (a nil pointer is \<open>None\<close>), \<open>node\<close>, and the log of calls.
\<close>

record NodeState =
  ms :: "CreateContainerMessage option list"
  node :: "Node option"
  journal :: "call list"

text \<open>
  What stops the process: \<open>make\<close> with a negative length and an index past the end of
  a plan.
\<close>

datatype panic = MakesliceLenOutOfRange | IndexOutOfRange

definition zero_message :: CreateContainerMessage where
  "zero_message =
     \<lparr>m_Podname = [], m_Nodename = [], m_ContainerID = [], m_ContainerName = [],
      m_Error = None, m_CPU = [], m_Memory = 0, m_Storage = 0, m_VolumePlan = [],
      m_Publish = [], m_Hook = []\<rparr>"

definition node_try ::
  "ReplicaWorld \<Rightarrow> NodeInfo \<Rightarrow> DeployOptions \<Rightarrow> nat \<Rightarrow> CPUMap \<Rightarrow> VolumePlan \<Rightarrow> NodeState
     \<Rightarrow> error option \<times> NodeState" where
  "node_try w nodeInfo opts i cpu volumePlan s =
     (case doGetAndPrepareNode w (ni_Name nodeInfo) (o_Image opts) of
        ((nd, e), cs) \<Rightarrow>
          (e, s\<lparr>node := nd,
                ms := (ms s)[i := Some (zero_message\<lparr>m_Error := e, m_CPU := cpu,
                                                       m_VolumePlan := volumePlan\<rparr>)],
                journal := journal s @ cs\<rparr>))"

text \<open>
  \<open>then\<close> runs only after \<open>try\<close> returned no error, when \<open>node\<close> is not nil
  (\<open>node_try_node\<close> below); the branch for a nil \<open>node\<close> is there to make the function
  total.
\<close>

definition node_then ::
  "ReplicaWorld \<Rightarrow> DeployOptions \<Rightarrow> int \<Rightarrow> nat \<Rightarrow> CPUMap \<Rightarrow> VolumePlan \<Rightarrow> NodeState
     \<Rightarrow> error option \<times> NodeState" where
  "node_then w opts index i cpu volumePlan s =
     (case node s of
        None \<Rightarrow> (Some (ErrExternal ''nil node''), s)
      | Some nd \<Rightarrow>
          (case doCreateAndStartContainer w (int i + index) nd opts cpu volumePlan of
             (m, cs) \<Rightarrow> (m_Error m, s\<lparr>ms := (ms s)[i := Some m], journal := journal s @ cs\<rparr>)))"

text \<open>
  The rollback reads \<open>ms[i]\<close>, which \<open>try\<close> has set (\<open>node_try_slot\<close> below; the
  branch for a nil \<open>ms[i]\<close> is there to make the function total). \<open>withNodeLocked\<close> takes
  the lock of the node and fetches the node; when that fails the function it was given is
  not called.
\<close>

definition node_rollback ::
  "ReplicaWorld \<Rightarrow> NodeInfo \<Rightarrow> nat \<Rightarrow> NodeState \<Rightarrow> error option \<times> NodeState" where
  "node_rollback w nodeInfo i s =
     (case ms s ! i of
        None \<Rightarrow> (Some (ErrExternal ''nil message''), s)
      | Some m \<Rightarrow>
          if m_ContainerID m \<noteq> [] then (None, s)
          else (case w_withNodeLocked w of
                  Inl e \<Rightarrow> (Some e, s\<lparr>journal := journal s @ [CallLockNode (ni_Name nodeInfo)]\<rparr>)
                | Inr nd \<Rightarrow>
                    (w_UpdateNodeResource w,
                     s\<lparr>journal := journal s @ [CallLockNode (ni_Name nodeInfo),
                                       CallUpdateNodeResource (n_Name nd) ActionIncr]\<rparr>)))"

text \<open>One turn of the loop, for replica \<open>i\<close> of the node.\<close>

definition plan_at :: "'a list \<Rightarrow> nat \<Rightarrow> 'a \<Rightarrow> panic + 'a" where
  "plan_at plans i dflt =
     (if length plans > 0
      then (if i < length plans then Inr (plans ! i) else Inl IndexOutOfRange)
      else Inr dflt)"

definition doCreateContainerOnNode_turn ::
  "World \<Rightarrow> NodeInfo \<Rightarrow> DeployOptions \<Rightarrow> int \<Rightarrow> nat \<Rightarrow> NodeState \<Rightarrow> panic + NodeState" where
  "doCreateContainerOnNode_turn world nodeInfo opts index i s =
     (case plan_at (ni_CPUPlan nodeInfo) i [] of
        Inl p \<Rightarrow> Inl p
      | Inr cpu \<Rightarrow>
          (case plan_at (ni_VolumePlans nodeInfo) i [] of
             Inl p \<Rightarrow> Inl p
           | Inr volumePlan \<Rightarrow>
               (let w = world (int i + index)
                in Inr (snd (Txn (node_try w nodeInfo opts i cpu volumePlan)
                              (node_then w opts index i cpu volumePlan)
                              (Some (node_rollback w nodeInfo i))
                              (s\<lparr>node := Some \<lparr>n_Name = []\<rparr>\<rparr>))))))"

function doCreateContainerOnNode_loop ::
  "World \<Rightarrow> NodeInfo \<Rightarrow> DeployOptions \<Rightarrow> int \<Rightarrow> nat \<Rightarrow> NodeState \<Rightarrow> panic + NodeState" where
  "doCreateContainerOnNode_loop world nodeInfo opts index i s =
     (if int i < ni_Deploy nodeInfo
      then (case doCreateContainerOnNode_turn world nodeInfo opts index i s of
              Inl p \<Rightarrow> Inl p
            | Inr s' \<Rightarrow> doCreateContainerOnNode_loop world nodeInfo opts index (Suc i) s')
      else Inr s)"
  by pat_completeness auto
termination
  by (relation "measure (\<lambda>(world, nodeInfo, opts, index, i, s). nat (ni_Deploy nodeInfo) - i)") auto

declare doCreateContainerOnNode_loop.simps [simp del]

definition doCreateContainerOnNode ::
  "World \<Rightarrow> NodeInfo \<Rightarrow> DeployOptions \<Rightarrow> int
     \<Rightarrow> panic + (CreateContainerMessage option list \<times> call list)" where
  "doCreateContainerOnNode world nodeInfo opts index =
     (if ni_Deploy nodeInfo < 0 then Inl MakesliceLenOutOfRange
      else (case doCreateContainerOnNode_loop world nodeInfo opts index 0
                   \<lparr>ms = replicate (nat (ni_Deploy nodeInfo)) None, node = None, journal = []\<rparr> of
              Inl p \<Rightarrow> Inl p
            | Inr s \<Rightarrow> Inr (ms s, journal s)))"

subsection \<open>doCreateContainer and CreateContainer\<close>

text \<open>
  The goroutine that \<open>doCreateContainer\<close> starts for one node: the messages of
  \<open>doCreateContainerOnNode\<close> are sent one by one, each send and the update of the
  processing count that follows it inside a \<open>Txn\<close> of their own without a rollback; then
  the processing row is deleted and the wait group is told. The closures pass the log
  along. A send on the unbuffered channel is in the log when the receiver has taken the
  message; a caller that stops receiving blocks the goroutine at that send for good, and
  the runs below are those of a caller that drains the channel. A panic ends the process.
\<close>

definition send_try :: "CreateContainerMessage option \<Rightarrow> call list \<Rightarrow> error option \<times> call list" where
  "send_try m cs = (None, cs @ [Send m])"

definition send_then :: "NodeInfo \<Rightarrow> nat \<Rightarrow> call list \<Rightarrow> error option \<times> call list" where
  "send_then nodeInfo i cs =
     (None, cs @ [CallUpdateProcessing (ni_Name nodeInfo) (ni_Deploy nodeInfo - int i - 1)])"

fun send_all :: "NodeInfo \<Rightarrow> nat \<Rightarrow> CreateContainerMessage option list \<Rightarrow> call list \<Rightarrow> call list" where
  "send_all nodeInfo i [] cs = cs"
| "send_all nodeInfo i (m # rest) cs =
     send_all nodeInfo (Suc i) rest (snd (Txn (send_try m) (send_then nodeInfo i) None cs))"

definition deploy_try ::
  "World \<Rightarrow> DeployOptions \<Rightarrow> NodeInfo \<Rightarrow> int \<Rightarrow> panic + call list
     \<Rightarrow> error option \<times> (panic + call list)" where
  "deploy_try world opts nodeInfo index st =
     (case st of
        Inl p \<Rightarrow> (None, Inl p)
      | Inr cs \<Rightarrow>
          (case doCreateContainerOnNode world nodeInfo opts index of
             Inl p \<Rightarrow> (None, Inl p)
           | Inr (msgs, launch) \<Rightarrow> (None, Inr (send_all nodeInfo 0 msgs (cs @ launch)))))"

definition deploy_then :: "NodeInfo \<Rightarrow> panic + call list \<Rightarrow> error option \<times> (panic + call list)" where
  "deploy_then nodeInfo st =
     (case st of
        Inl p \<Rightarrow> (None, Inl p)
      | Inr cs \<Rightarrow> (None, Inr (cs @ [CallDeleteProcessing (ni_Name nodeInfo), WgDone])))"

definition node_goroutine :: "World \<Rightarrow> DeployOptions \<Rightarrow> NodeInfo \<Rightarrow> int \<Rightarrow> panic + call list" where
  "node_goroutine world opts nodeInfo index =
     snd (Txn (deploy_try world opts nodeInfo index) (deploy_then nodeInfo) None (Inr []))"

text \<open>The loop that starts the goroutines: \<open>index\<close> grows by the \<open>Deploy\<close> of each node.\<close>

fun spawn :: "World \<Rightarrow> DeployOptions \<Rightarrow> NodeInfo list \<Rightarrow> int \<Rightarrow> (panic + call list) list" where
  "spawn world opts [] index = []"
| "spawn world opts (nodeInfo # rest) index =
     node_goroutine world opts nodeInfo index # spawn world opts rest (index + ni_Deploy nodeInfo)"

text \<open>
  The calls that \<open>doCreateContainerOnNode\<close> makes to the engine, the store and the locks,
  and the sends.
\<close>

fun is_launch_call :: "call \<Rightarrow> bool" where
  "is_launch_call (Send m) = False"
| "is_launch_call (CallUpdateProcessing n k) = False"
| "is_launch_call (CallDeleteProcessing n) = False"
| "is_launch_call WgDone = False"
| "is_launch_call Close = False"
| "is_launch_call c = True"

fun is_send :: "call \<Rightarrow> bool" where
  "is_send (Send m) = True"
| "is_send c = False"

text \<open>
  The goroutines run side by side. The state they share: what each goroutine of a node
  still has to do (its log from \<open>spawn\<close>, in the position of its node in
  \<open>nodesInfo\<close>), the counter of the wait group, the result channel (\<open>None\<close> is the nil
  channel), and whether the driver goroutine has returned.
\<close>

datatype chan_state = Open | Closed

datatype actor = Driver | NodeRoutine nat

record dstate =
  d_pending :: "call list list"
  d_wg :: int
  d_ch :: "chan_state option"
  d_done :: bool

text \<open>
  One step of one goroutine. A call to the engine or the store can always be made. A
  send needs the channel open (on a nil channel it blocks for good, on a closed one it
  panics) and is a step when the caller takes the message: the runs are those of a
  caller that drains the channel. \<open>wg.Done()\<close> lowers the counter and panics below
  zero. The driver goroutine has called \<open>wg.Add(len(nodesInfo))\<close> and started the
  goroutines; \<open>wg.Wait()\<close> lets it go on only when the counter is zero, and then it
  returns and its deferred \<open>close(ch)\<close> runs, which panics unless the channel is open.
  (The metrics goroutines touch neither the channel nor the wait group and are left out.)
\<close>

inductive step :: "dstate \<Rightarrow> actor \<times> call \<Rightarrow> dstate \<Rightarrow> bool" where
  step_call:
    "k < length (d_pending s) \<Longrightarrow> d_pending s ! k = c # cs \<Longrightarrow> \<not> is_send c \<Longrightarrow> c \<noteq> WgDone
       \<Longrightarrow> c \<noteq> Close
       \<Longrightarrow> step s (NodeRoutine k, c) (s\<lparr>d_pending := (d_pending s)[k := cs]\<rparr>)"
| step_send:
    "k < length (d_pending s) \<Longrightarrow> d_pending s ! k = Send m # cs \<Longrightarrow> d_ch s = Some Open
       \<Longrightarrow> step s (NodeRoutine k, Send m) (s\<lparr>d_pending := (d_pending s)[k := cs]\<rparr>)"
| step_wg_done:
    "k < length (d_pending s) \<Longrightarrow> d_pending s ! k = WgDone # cs \<Longrightarrow> 0 < d_wg s
       \<Longrightarrow> step s (NodeRoutine k, WgDone)
             (s\<lparr>d_pending := (d_pending s)[k := cs], d_wg := d_wg s - 1\<rparr>)"
| step_close:
    "\<not> d_done s \<Longrightarrow> d_wg s = 0 \<Longrightarrow> d_ch s = Some Open
       \<Longrightarrow> step s (Driver, Close) (s\<lparr>d_ch := Some Closed, d_done := True\<rparr>)"

inductive exec :: "dstate \<Rightarrow> (actor \<times> call) list \<Rightarrow> dstate \<Rightarrow> bool" where
  exec_nil: "exec s [] s"
| exec_snoc: "exec s t s1 \<Longrightarrow> step s1 e s2 \<Longrightarrow> exec s (t @ [e]) s2"

definition stuck :: "dstate \<Rightarrow> bool" where
  "stuck s = (\<nexists>e s'. step s e s')"

definition driver_start :: "chan_state option \<Rightarrow> call list list \<Rightarrow> dstate" where
  "driver_start c ps = \<lparr>d_pending = ps, d_wg = int (length ps), d_ch = c, d_done = False\<rparr>"

text \<open>
  The runs of the goroutines that \<open>doCreateContainer\<close> starts for \<open>nodesInfo\<close> on the
  channel \<open>c\<close>, up to a state in which no goroutine can take a step, and that state.
  \<open>driver_run\<close> has them on the channel that \<open>make\<close> gave.
\<close>

inductive driver_exec ::
  "chan_state option \<Rightarrow> World \<Rightarrow> DeployOptions \<Rightarrow> NodeInfo list \<Rightarrow> (actor \<times> call) list
     \<Rightarrow> dstate \<Rightarrow> bool" where
  driver_exec_intro:
    "spawn world opts nodesInfo 0 = map Inr ps \<Longrightarrow> exec (driver_start c ps) t s' \<Longrightarrow> stuck s'
       \<Longrightarrow> driver_exec c world opts nodesInfo t s'"

inductive driver_run :: "World \<Rightarrow> DeployOptions \<Rightarrow> NodeInfo list \<Rightarrow> (actor \<times> call) list \<Rightarrow> bool" where
  driver_run_intro:
    "driver_exec (Some Open) world opts nodesInfo t s' \<Longrightarrow> driver_run world opts nodesInfo t"

text \<open>
  What \<open>doCreateContainer\<close> hands back: the channel as its own statements leave it (made
  by \<open>make\<close>, hence open and empty; \<open>None\<close> is the nil channel), the error, and the plan
  that the driver goroutine was started with, if one was started. Whatever happens on the
  channel afterwards is done by that goroutine.
\<close>

record CreateContainerResult =
  r_ch :: "chan_state option"
  r_err :: "error option"
  r_driver :: "NodeInfo list option"

text \<open>\<open>doAllocResource\<close> is declared outside the source files at hand: its result is a parameter.\<close>

definition doCreateContainer ::
  "(DeployOptions \<Rightarrow> error + NodeInfo list) \<Rightarrow> DeployOptions \<Rightarrow> CreateContainerResult" where
  "doCreateContainer doAllocResource opts =
     (case doAllocResource opts of
        Inl e \<Rightarrow> \<lparr>r_ch = Some Open, r_err = Some e, r_driver = None\<rparr>
      | Inr nodesInfo \<Rightarrow> \<lparr>r_ch = Some Open, r_err = None, r_driver = Some nodesInfo\<rparr>)"

text \<open>
  \<open>CreateContainer\<close>. \<open>opts.Normalize\<close> is declared outside the source files at hand and
  is a parameter; the random \<open>ProcessIdent\<close> is read by the store only.
\<close>

definition CreateContainer ::
  "(DeployOptions \<Rightarrow> DeployOptions) \<Rightarrow> (DeployOptions \<Rightarrow> error + NodeInfo list)
     \<Rightarrow> DeployOptions \<Rightarrow> CreateContainerResult" where
  "CreateContainer Normalize doAllocResource opts0 =
     (let opts = Normalize opts0
      in if o_Count opts \<le> 0 then \<lparr>r_ch = None, r_err = Some ErrBadCount, r_driver = None\<rparr>
         else if sint (o_Memory opts) < 0
           then \<lparr>r_ch = None, r_err = Some ErrBadMemory, r_driver = None\<rparr>
         else if o_CPUQuota opts < 0
           then \<lparr>r_ch = None, r_err = Some ErrBadCPU, r_driver = None\<rparr>
         else doCreateContainer doAllocResource opts)"

text \<open>
  For stating the properties: the data model of a \<open>NodeInfo\<close> (a deploy count that is
  not negative, plans that are empty or have one entry for each replica); and the
  \<open>index\<close> that the goroutine of the \<open>k\<close>-th node is started with.
\<close>

definition NodeInfo_ok :: "NodeInfo \<Rightarrow> bool" where
  "NodeInfo_ok nodeInfo =
     (0 \<le> ni_Deploy nodeInfo
      \<and> (ni_CPUPlan nodeInfo = [] \<or> int (length (ni_CPUPlan nodeInfo)) = ni_Deploy nodeInfo)
      \<and> (ni_VolumePlans nodeInfo = []
           \<or> int (length (ni_VolumePlans nodeInfo)) = ni_Deploy nodeInfo))"

definition offset :: "NodeInfo list \<Rightarrow> nat \<Rightarrow> int" where
  "offset nodesInfo k = sum_list (map ni_Deploy (take k nodesInfo))"

definition routine :: "nat \<Rightarrow> (actor \<times> call) list \<Rightarrow> call list" where
  "routine k t = map snd (filter (\<lambda>ac. fst ac = NodeRoutine k) t)"

text \<open>
  What a turn of the loop of \<open>doCreateContainerOnNode\<close> keeps: the length of \<open>ms\<close> and
  a log of launch calls only. And what the goroutine of a node writes after the launch:
  each message and the update of the processing count that follows it.
\<close>

definition turn_inv :: "nat \<Rightarrow> NodeState \<Rightarrow> bool" where
  "turn_inv n s = (length (ms s) = n \<and> list_all is_launch_call (journal s))"

definition sends :: "NodeInfo \<Rightarrow> nat \<Rightarrow> CreateContainerMessage option list \<Rightarrow> call list" where
  "sends nodeInfo i msgs =
     concat (map (\<lambda>(j, m). [Send m, CallUpdateProcessing (ni_Name nodeInfo)
                                        (ni_Deploy nodeInfo - int j - 1)])
               (enumerate i msgs))"

text \<open>
  For the proofs about runs. A log that ends with its only \<open>wg.Done()\<close> and holds no
  close; the number of goroutines that still have a step to take; the number of sends still
  to come; what holds in every state of a run on an open channel (each goroutine has run a
  prefix of its log, the counter of the wait group is the number of goroutines not yet
  through, every send made or still to come is in the logs, and the channel is open until
  the driver closes it as its last step); and a bound on the number of steps left.
\<close>

definition good_log :: "call list \<Rightarrow> bool" where
  "good_log p = (\<exists>b. p = b @ [WgDone] \<and> WgDone \<notin> set b \<and> Close \<notin> set b)"

definition waiting :: "call list list \<Rightarrow> nat" where
  "waiting pending = sum_list (map (\<lambda>p. if p = [] then 0 else 1) pending)"

definition sends_in :: "call list list \<Rightarrow> nat" where
  "sends_in pending = sum_list (map (\<lambda>p. length (filter is_send p)) pending)"

definition run_inv :: "call list list \<Rightarrow> dstate \<Rightarrow> (actor \<times> call) list \<Rightarrow> bool" where
  "run_inv ps s t =
     (length (d_pending s) = length ps
      \<and> (\<forall>k<length ps. routine k t @ d_pending s ! k = ps ! k)
      \<and> d_wg s = int (waiting (d_pending s))
      \<and> length (filter is_send (map snd t)) + sends_in (d_pending s) = sends_in ps
      \<and> (if d_done s
          then d_wg s = 0 \<and> d_ch s = Some Closed \<and> t \<noteq> [] \<and> last t = (Driver, Close)
               \<and> Close \<notin> set (map snd (butlast t))
          else d_ch s = Some Open \<and> Close \<notin> set (map snd t)))"


subsection \<open>Values for the examples\<close>

text \<open>
  A request for one replica of \<open>app\<close> on the node \<open>n1\<close>, and an outside in which every
  call succeeds; the examples below change one answer at a time.
\<close>

definition ex_opts :: DeployOptions where
  "ex_opts =
     \<lparr>o_Name = ''app'',
      o_Entrypoint = \<lparr>e_Name = ''web'', e_Privileged = False, e_Publish = [], e_Hook = None\<rparr>,
      o_Podname = ''pod'', o_Image = ''img'', o_Count = 1, o_CPUQuota = 0, o_Memory = 64,
      o_Storage = 0, o_Env = [], o_User = ''root'', o_Volumes = [], o_Labels = Map.empty,
      o_Data = [], o_AfterCreate = [], o_IgnoreHook = False\<rparr>"

definition ex_node :: Node where
  "ex_node = \<lparr>n_Name = ''n1''\<rparr>"

definition ex_nodeInfo :: NodeInfo where
  "ex_nodeInfo = \<lparr>ni_Name = ''n1'', ni_Deploy = 1, ni_CPUPlan = [], ni_VolumePlans = []\<rparr>"

definition ex_replica :: ReplicaWorld where
  "ex_replica =
     \<lparr>w_GetNode = Inr ex_node, w_pullImage = None, w_RandomString = ''abcdef'',
      w_EncodeMetaInLabel = ''meta'', w_VirtualizationCreate = Inr ''c1'',
      w_GetReader = (\<lambda>dst. None), w_doSendFileToContainer = (\<lambda>dst. None),
      w_doStartContainer = ([], None),
      w_Inspect = Inr \<lparr>i_User = ''root'', i_Networks = None\<rparr>,
      w_MakePublishInfo = [], w_AddContainer = None, w_doRemoveContainer = None,
      w_withNodeLocked = Inr ex_node, w_UpdateNodeResource = None\<rparr>"

definition ex_hard :: VolumeBinding where
  "ex_hard = \<lparr>Source = ''/host'', Destination = ''/logs'', Flags = [], SizeInBytes = 0\<rparr>"

definition ex_auto :: VolumeBinding where
  "ex_auto = \<lparr>Source = ''AUTO'', Destination = ''/data'', Flags = ''rw'', SizeInBytes = 100\<rparr>"

definition ex_plan :: VolumePlan where
  "ex_plan = [(ex_auto, \<lparr>ResourceID = ''/sda1''\<rparr>)]"

text \<open>
  Two nodes with one replica each. The second replica (global number 1) is created as
  \<open>c2\<close> on \<open>n2\<close>. In the run \<open>ex_run\<close> the first node launches its replica, the second
  node launches and sends its message, then the first node sends its message and is
  done, then the second node is done, and the driver closes the channel.
\<close>

definition ex_message :: CreateContainerMessage where
  "ex_message =
     \<lparr>m_Podname = ''pod'', m_Nodename = ''n1'', m_ContainerID = ''c1'',
      m_ContainerName = ''app_web_abcdef'', m_Error = None, m_CPU = [], m_Memory = 64,
      m_Storage = 0, m_VolumePlan = [], m_Publish = [], m_Hook = []\<rparr>"

definition ex_launch :: "call list" where
  "ex_launch =
     [CallGetNode ''n1'', CallPullImage ''n1'' ''img'', CallVirtualizationCreate ''n1'' 0,
      CallStartContainer ''c1'', CallInspect ''c1'', CallAddContainer ''c1'']"

definition ex_world :: World where
  "ex_world no =
     (if no = 1
      then ex_replica\<lparr>w_GetNode := Inr \<lparr>n_Name = ''n2''\<rparr>, w_RandomString := ''ghijkl'',
                      w_VirtualizationCreate := Inr ''c2''\<rparr>
      else ex_replica)"

definition ex_nodesInfo :: "NodeInfo list" where
  "ex_nodesInfo = [ex_nodeInfo, ex_nodeInfo\<lparr>ni_Name := ''n2''\<rparr>]"

definition ex_message2 :: CreateContainerMessage where
  "ex_message2 =
     ex_message\<lparr>m_Nodename := ''n2'', m_ContainerID := ''c2'',
                 m_ContainerName := ''app_web_ghijkl''\<rparr>"

definition ex_launch2 :: "call list" where
  "ex_launch2 =
     [CallGetNode ''n2'', CallPullImage ''n2'' ''img'', CallVirtualizationCreate ''n2'' 1,
      CallStartContainer ''c2'', CallInspect ''c2'', CallAddContainer ''c2'']"

definition ex_sends :: "call list" where
  "ex_sends =
     [Send (Some ex_message), CallUpdateProcessing ''n1'' 0, CallDeleteProcessing ''n1'', WgDone]"

definition ex_sends2 :: "call list" where
  "ex_sends2 = [Send (Some ex_message2), CallUpdateProcessing ''n2'' 0]"

definition ex_done2 :: "call list" where
  "ex_done2 = [CallDeleteProcessing ''n2'', WgDone]"

definition ex_run :: "(actor \<times> call) list" where
  "ex_run =
     map (Pair (NodeRoutine 0)) ex_launch
     @ map (Pair (NodeRoutine 1)) (ex_launch2 @ ex_sends2)
     @ map (Pair (NodeRoutine 0)) ex_sends
     @ map (Pair (NodeRoutine 1)) ex_done2
     @ [(Driver, Close)]"

text \<open>The state at the end of that run.\<close>

definition ex_final :: dstate where
  "ex_final = \<lparr>d_pending = [[], []], d_wg = 0, d_ch = Some Closed, d_done = True\<rparr>"

section \<open>Properties of the volume model\<close>

subsection \<open>Splitting, parsing and printing\<close>

lemma Split_nonempty: "Split s \<noteq> []"
  by (induction s) (auto split: list.splits)

lemma Split_no_colon: "p \<in> set (Split s) \<Longrightarrow> CHR '':'' \<notin> set p"
  by (induction s arbitrary: p) (auto split: list.splits if_splits)

lemma Split_single: "CHR '':'' \<notin> set a \<Longrightarrow> Split a = [a]"
  by (induction a) auto

lemma Split_append: "CHR '':'' \<notin> set a \<Longrightarrow> Split (a @ CHR '':'' # r) = a # Split r"
  by (induction a) auto

lemma is_digit_digit_char: "d < 10 \<Longrightarrow> is_digit (digit_char d)"
  by (simp add: is_digit_def digit_char_def)

lemma digit_val_digit_char: "d < 10 \<Longrightarrow> digit_val (digit_char d) = d"
  by (simp add: digit_val_def digit_char_def)

lemma is_digit_not_sign:
  "is_digit c \<Longrightarrow> c \<noteq> CHR ''+'' \<and> c \<noteq> CHR ''-'' \<and> c \<noteq> CHR '':''"
  by (auto simp: is_digit_def)

lemma FormatUint_nonempty: "FormatUint n \<noteq> []"
  by (subst FormatUint.simps) simp

lemma FormatUint_digits: "c \<in> set (FormatUint n) \<Longrightarrow> is_digit c"
proof (induction n arbitrary: c rule: FormatUint.induct)
  case (1 n)
  then show ?case
    by (subst (asm) (2) FormatUint.simps) (auto simp: is_digit_digit_char split: if_splits)
qed

lemma FormatUint_hd: "\<exists>c cs. FormatUint n = c # cs \<and> is_digit c"
  using FormatUint_nonempty[of n] FormatUint_digits[of _ n]
  by (cases "FormatUint n") auto

lemma ParseUint_loop_snoc:
  "ParseUint_loop n (xs @ [c]) =
     (case ParseUint_loop n xs of Inl e \<Rightarrow> Inl e | Inr m \<Rightarrow> ParseUint_loop m [c])"
  by (induction xs arbitrary: n) auto

text \<open>Reading back the digits of a number that fits 64 bits never meets the cutoff.\<close>

lemma ParseUint_loop_FormatUint:
  "m \<le> maxVal \<Longrightarrow> ParseUint_loop 0 (FormatUint m) = Inr m"
proof (induction m rule: FormatUint.induct)
  case (1 n)
  show ?case
  proof (cases "n < 10")
    case True
    then show ?thesis
      by (subst FormatUint.simps)
         (simp add: is_digit_digit_char digit_val_digit_char cutoff10_def maxVal_def)
  next
    case False
    have le: "n div 10 \<le> maxVal" using 1(2) by simp
    have ih: "ParseUint_loop 0 (FormatUint (n div 10)) = Inr (n div 10)"
      using 1(1)[OF False le] .
    have c: "\<not> n div 10 \<ge> cutoff10" using 1(2) by (simp add: cutoff10_def maxVal_def)
    show ?thesis
      using False c 1(2)
      by (subst FormatUint.simps)
         (simp add: ParseUint_loop_snoc ih is_digit_digit_char digit_val_digit_char)
  qed
qed

lemma ParseUint_FormatUint: "m \<le> maxVal \<Longrightarrow> ParseUint (FormatUint m) = Inr m"
  by (simp add: ParseUint_def FormatUint_nonempty ParseUint_loop_FormatUint)

lemma sint64_bounds: "- (2 ^ 63) \<le> sint (w :: int64) \<and> sint w < 2 ^ 63"
  using sint_ge[of w] sint_lt[of w] by simp

lemma ParseInt_FormatInt: "ParseInt (FormatInt (sint w)) = Inr w"
proof (cases "sint w < 0")
  case True
  define n where "n = nat (- sint w)"
  have n_le: "n \<le> 2 ^ 63" using sint64_bounds[of w] True by (simp add: n_def nat_le_iff)
  then have n_max: "n \<le> maxVal" by (simp add: maxVal_def)
  have "- (of_nat n :: int64) = of_int (- int n)" by simp
  also have "- int n = sint w" using True by (simp add: n_def)
  finally have w: "- (of_nat n :: int64) = w" by simp
  show ?thesis
    using True n_le w
    by (simp add: FormatInt_def ParseInt_def ParseUint_FormatUint[OF n_max] n_def[symmetric])
next
  case False
  define n where "n = nat (sint w)"
  have n_lt: "n < 2 ^ 63" using sint64_bounds[of w] False by (simp add: n_def nat_less_iff)
  then have n_max: "n \<le> maxVal" by (simp add: maxVal_def)
  have "(of_nat n :: int64) = of_int (int n)" by simp
  also have "int n = sint w" using False by (simp add: n_def)
  finally have w: "(of_nat n :: int64) = w" by simp
  obtain c cs where hd: "FormatUint n = c # cs" "is_digit c"
    using FormatUint_hd by blast
  have pu: "ParseUint (c # cs) = Inr n"
    using ParseUint_FormatUint[OF n_max] hd by simp
  show ?thesis
    using False n_lt w hd is_digit_not_sign[OF hd(2)] pu
    by (simp add: FormatInt_def ParseInt_def n_def[symmetric])
qed

lemma FormatInt_no_colon: "CHR '':'' \<notin> set (FormatInt n)"
  using FormatUint_digits is_digit_not_sign
  by (auto simp: FormatInt_def)

lemma NewVolumeBinding_parts:
  assumes "NewVolumeBinding s = (Some vb, e)"
  shows "CHR '':'' \<notin> set (Source vb) \<and> CHR '':'' \<notin> set (Destination vb)
         \<and> CHR '':'' \<notin> set (Flags vb) \<and> e = Validate vb"
proof -
  have nc: "\<And>i. i < length (Split s) \<Longrightarrow> CHR '':'' \<notin> set (Split s ! i)"
    using Split_no_colon nth_mem by blast
  show ?thesis
    using assms nc[of 0] nc[of 1] nc[of 2]
    by (auto simp: NewVolumeBinding_def Let_def Split_nonempty split: sum.splits if_splits)
qed

lemma NewVolumeBinding_ToString_fields:
  assumes "CHR '':'' \<notin> set src" "CHR '':'' \<notin> set dst" "CHR '':'' \<notin> set fl"
  shows "NewVolumeBinding
           (ToString \<lparr>Source = src, Destination = dst, Flags = fl, SizeInBytes = z\<rparr> False)
         = (Some \<lparr>Source = src, Destination = dst, Flags = fl, SizeInBytes = z\<rparr>,
            Validate \<lparr>Source = src, Destination = dst, Flags = fl, SizeInBytes = z\<rparr>)"
proof -
  have two: "Split (src @ '':'' @ dst) = [src, dst]"
    using assms by (simp add: Split_append Split_single)
  have three: "Split (src @ '':'' @ dst @ '':'' @ fl) = [src, dst, fl]"
    using assms by (simp add: Split_append Split_single)
  have four: "Split (src @ '':'' @ dst @ '':'' @ fl @ '':'' @ FormatInt (sint z))
                 = [src, dst, fl, FormatInt (sint z)]"
    using assms FormatInt_no_colon[of "sint z"]
    by (simp add: Split_append Split_single)
  consider (a) "fl = [] \<and> z = 0" | (b) "fl \<noteq> [] \<and> z = 0" | (c) "z \<noteq> 0" by blast
  then show ?thesis
  proof cases
    case a
    then show ?thesis using two
      by (simp add: ToString_def NewVolumeBinding_def Let_def)
  next
    case b
    then show ?thesis using three
      by (simp add: ToString_def NewVolumeBinding_def Let_def)
  next
    case c
    then show ?thesis using four
      by (simp add: ToString_def NewVolumeBinding_def Let_def ParseInt_FormatInt)
  qed
qed

lemma NewVolumeBinding_ToString:
  assumes "CHR '':'' \<notin> set (Source vb)" "CHR '':'' \<notin> set (Destination vb)"
    "CHR '':'' \<notin> set (Flags vb)"
  shows "NewVolumeBinding (ToString vb False) = (Some vb, Validate vb)"
  using assms
    NewVolumeBinding_ToString_fields[of "Source vb" "Destination vb" "Flags vb" "SizeInBytes vb"]
  by (cases vb) simp

lemmas parse_eval =
  NewVolumeBinding_def Let_def Validate_def RequireMonopoly_def HasSuffix_def Contains_def
  AUTO_def ParseInt_def ParseUint_def is_digit_def digit_val_def cutoff10_def maxVal_def

subsection \<open>What a parsed binding satisfies\<close>

text \<open>
  C5, as the code has it. A call of \<open>NewVolumeBinding\<close> that returns no error returns a
  binding whose \<open>Destination\<close> is not empty and whose \<open>SizeInBytes\<close>, when the binding
  requires a monopoly, is not zero. \<open>Validate\<close> compares the size with zero only: a
  negative size passes.
\<close>

theorem NewVolumeBinding_valid:
  "NewVolumeBinding s = (r, None) \<Longrightarrow>
     \<exists>vb. r = Some vb \<and> Destination vb \<noteq> [] \<and> (RequireMonopoly vb \<longrightarrow> SizeInBytes vb \<noteq> 0)"
  by (auto simp: NewVolumeBinding_def Let_def Validate_def split: sum.splits if_splits)

theorem NewVolumeBinding_valid_witness:
  "NewVolumeBinding ''AUTO:/data:m:5''
     = (Some \<lparr>Source = ''AUTO'', Destination = ''/data'', Flags = ''m'', SizeInBytes = 5\<rparr>, None)
   \<and> RequireMonopoly \<lparr>Source = ''AUTO'', Destination = ''/data'', Flags = ''m'', SizeInBytes = 5\<rparr>
   \<and> (\<exists>vb. Some \<lparr>Source = ''AUTO'', Destination = ''/data'', Flags = ''m'', SizeInBytes = 5\<rparr>
             = Some vb \<and> Destination vb \<noteq> [] \<and> SizeInBytes vb \<noteq> 0)"
proof -
  have h: "NewVolumeBinding ''AUTO:/data:m:5''
     = (Some \<lparr>Source = ''AUTO'', Destination = ''/data'', Flags = ''m'', SizeInBytes = 5\<rparr>, None)"
    by (simp add: parse_eval)
  have m: "RequireMonopoly
     \<lparr>Source = ''AUTO'', Destination = ''/data'', Flags = ''m'', SizeInBytes = 5\<rparr>"
    by (simp add: parse_eval)
  show ?thesis
    using h m NewVolumeBinding_valid[OF h] by auto
qed

text \<open>
  C5 as the spec words it asks for a size strictly above zero. The volume string
  \<open>AUTO:/data:m:-5\<close> parses without an error into a monopoly binding of size \<open>-5\<close>.
\<close>

theorem NewVolumeBinding_monopoly_negative_size:
  "NewVolumeBinding ''AUTO:/data:m:-5''
     = (Some \<lparr>Source = ''AUTO'', Destination = ''/data'', Flags = ''m'', SizeInBytes = - 5\<rparr>, None)
   \<and> RequireMonopoly \<lparr>Source = ''AUTO'', Destination = ''/data'', Flags = ''m'', SizeInBytes = - 5\<rparr>
   \<and> \<not> 0 < sint (SizeInBytes
         \<lparr>Source = ''AUTO'', Destination = ''/data'', Flags = ''m'', SizeInBytes = - 5\<rparr>)"
  by (simp add: parse_eval)

subsection \<open>Printing and parsing again\<close>

text \<open>
  C6. When \<open>NewVolumeBinding s\<close> returns the binding \<open>vb\<close> and no error, parsing
  \<open>vb.ToString(false)\<close> returns no error either and returns a binding with the same
  \<open>Source\<close>, \<open>Destination\<close>, \<open>Flags\<close> and \<open>SizeInBytes\<close>.
\<close>

theorem ToString_reparse:
  assumes "NewVolumeBinding s = (Some vb, None)"
  shows "NewVolumeBinding (ToString vb False) = (Some vb, None)"
  using NewVolumeBinding_parts[OF assms] NewVolumeBinding_ToString[of vb] by simp

theorem ToString_reparse_witness:
  "NewVolumeBinding ''AUTO:/data::+07''
     = (Some \<lparr>Source = ''AUTO'', Destination = ''/data'', Flags = [], SizeInBytes = 7\<rparr>, None)
   \<and> ToString \<lparr>Source = ''AUTO'', Destination = ''/data'', Flags = [], SizeInBytes = 7\<rparr> False
     = ''AUTO:/data::7''
   \<and> NewVolumeBinding
       (ToString \<lparr>Source = ''AUTO'', Destination = ''/data'', Flags = [], SizeInBytes = 7\<rparr> False)
     = (Some \<lparr>Source = ''AUTO'', Destination = ''/data'', Flags = [], SizeInBytes = 7\<rparr>, None)"
proof -
  have h: "NewVolumeBinding ''AUTO:/data::+07''
     = (Some \<lparr>Source = ''AUTO'', Destination = ''/data'', Flags = [], SizeInBytes = 7\<rparr>, None)"
    by (simp add: parse_eval)
  have t: "ToString \<lparr>Source = ''AUTO'', Destination = ''/data'', Flags = [], SizeInBytes = 7\<rparr> False
     = ''AUTO:/data::7''"
    by (simp add: ToString_def FormatInt_def FormatUint.simps digit_char_def char_of_def bit_iff_odd)
  show ?thesis
    using h t ToString_reparse[OF h] by simp
qed

subsection \<open>Merge\<close>

lemma map_of_sizeMap_add:
  "map_of (sizeMap_add m k v) =
     (map_of m)(k \<mapsto> (case map_of m k of None \<Rightarrow> v | Some v' \<Rightarrow> v' + v))"
  by (induction m k v rule: sizeMap_add.induct) (auto simp: fun_eq_iff)

lemma keys_sizeMap_add: "fst ` set (sizeMap_add m k v) = insert k (fst ` set m)"
  by (induction m k v rule: sizeMap_add.induct) auto

lemma distinct_sizeMap_add:
  "distinct (map fst m) \<Longrightarrow> distinct (map fst (sizeMap_add m k v))"
  by (induction m k v rule: sizeMap_add.induct) (auto simp: keys_sizeMap_add)

lemma Merge_loop_hard:
  "snd (Merge_loop xs (m, h)) = h @ filter (\<lambda>vb. \<not> RequireSchedule vb) xs"
  by (induction xs arbitrary: m h) auto

lemma Merge_loop_distinct:
  "distinct (map fst m) \<Longrightarrow> distinct (map fst (fst (Merge_loop xs (m, h))))"
  by (induction xs arbitrary: m h) (auto simp: distinct_sizeMap_add)

lemma total_absent: "k \<notin> scheduled_keys xs \<Longrightarrow> total k xs = 0"
  by (induction xs) (auto simp: total_def scheduled_keys_def)

lemma total_Cons:
  "total k (vb # xs) = (if RequireSchedule vb \<and> key_of vb = k then SizeInBytes vb else 0) + total k xs"
  by (simp add: total_def)

lemma scheduled_keys_Cons:
  "scheduled_keys (vb # xs) =
     (if RequireSchedule vb then insert (key_of vb) (scheduled_keys xs) else scheduled_keys xs)"
  by (auto simp: scheduled_keys_def)

lemma Merge_loop_map_of:
  "map_of (fst (Merge_loop xs (m, h))) k =
     (if k \<in> scheduled_keys xs
      then Some ((case map_of m k of None \<Rightarrow> 0 | Some v \<Rightarrow> v) + total k xs)
      else map_of m k)"
proof (induction xs arbitrary: m h)
  case Nil
  then show ?case by (simp add: scheduled_keys_def)
next
  case (Cons vb xs)
  show ?case
  proof (cases "RequireSchedule vb")
    case False
    then show ?thesis
      using Cons.IH[of m "h @ [vb]"]
      by (simp add: scheduled_keys_Cons total_Cons)
  next
    case True
    let ?m' = "sizeMap_add m (key_of vb) (SizeInBytes vb)"
    have step: "Merge_loop (vb # xs) (m, h) = Merge_loop xs (?m', h)"
      using True by (simp add: key_of_def)
    have ih: "map_of (fst (Merge_loop (vb # xs) (m, h))) k =
        (if k \<in> scheduled_keys xs
         then Some ((case map_of ?m' k of None \<Rightarrow> 0 | Some v \<Rightarrow> v) + total k xs)
         else map_of ?m' k)"
      unfolding step by (rule Cons.IH)
    have upd: "map_of ?m' k =
        (if k = key_of vb
         then Some ((case map_of m k of None \<Rightarrow> 0 | Some v \<Rightarrow> v) + SizeInBytes vb)
         else map_of m k)"
      by (simp add: map_of_sizeMap_add split: option.splits)
    show ?thesis
    proof (cases "k \<in> scheduled_keys xs")
      case in_rest: True
      then show ?thesis
        using True
        by (simp only: ih upd scheduled_keys_Cons total_Cons)
           (auto simp: add.assoc split: option.splits)
    next
      case not_in_rest: False
      then show ?thesis
        using True total_absent[OF not_in_rest]
        by (simp only: ih upd scheduled_keys_Cons total_Cons)
           (auto split: option.splits)
    qed
  qed
qed

lemma set_softVolumes_of:
  "set (softVolumes_of m) =
     {\<lparr>Source = fst k, Destination = fst (snd k), Flags = snd (snd k), SizeInBytes = v\<rparr>
        | k v. (k, v) \<in> set m \<and> \<not> sint v < 0}"
  by (induction m rule: softVolumes_of.induct) auto

text \<open>The set of soft volumes does not depend on the order in which the map is ranged over.\<close>

lemma softVolumes_any_order:
  "set m' = set m \<Longrightarrow> set (softVolumes_of m') = set (softVolumes_of m)"
  by (simp add: set_softVolumes_of)

lemma set_softVolumes_of_map:
  assumes "distinct (map fst m)"
  shows "set (softVolumes_of m) =
     {\<lparr>Source = fst k, Destination = fst (snd k), Flags = snd (snd k), SizeInBytes = v\<rparr>
        | k v. map_of m k = Some v \<and> \<not> sint v < 0}"
  using assms by (simp add: set_softVolumes_of)

lemma total_append: "total k (a @ b) = total k a + total k b"
  by (simp add: total_def)

lemma scheduled_keys_append: "scheduled_keys (a @ b) = scheduled_keys a \<union> scheduled_keys b"
  by (auto simp: scheduled_keys_def)

lemma Merge_sizes_commute:
  "map_of (fst (Merge_loop (a @ b) ([], []))) = map_of (fst (Merge_loop (b @ a) ([], [])))"
  by (rule ext) (auto simp: Merge_loop_map_of total_append scheduled_keys_append add.commute)

text \<open>
  C7. \<open>Merge(a, b)\<close> and \<open>Merge(b, a)\<close> return the same soft volumes as a set and the
  same hard volumes as a set.
\<close>

theorem Merge_commutes:
  "set (fst (Merge a b)) = set (fst (Merge b a))
   \<and> set (fst (snd (Merge a b))) = set (fst (snd (Merge b a)))"
proof -
  obtain m1 h1 where r1: "Merge_loop (a @ b) ([], []) = (m1, h1)"
    by (cases "Merge_loop (a @ b) ([], [])")
  obtain m2 h2 where r2: "Merge_loop (b @ a) ([], []) = (m2, h2)"
    by (cases "Merge_loop (b @ a) ([], [])")
  have d1: "distinct (map fst m1)" using Merge_loop_distinct[of "[]" "a @ b" "[]"] r1 by simp
  have d2: "distinct (map fst m2)" using Merge_loop_distinct[of "[]" "b @ a" "[]"] r2 by simp
  have mm: "map_of m1 = map_of m2" using Merge_sizes_commute[of a b] r1 r2 by simp
  have soft: "set (softVolumes_of m1) = set (softVolumes_of m2)"
    by (simp only: set_softVolumes_of_map[OF d1] set_softVolumes_of_map[OF d2] mm)
  have "h1 = filter (\<lambda>vb. \<not> RequireSchedule vb) (a @ b)"
    using Merge_loop_hard[of "a @ b" "[]" "[]"] r1 by simp
  moreover have "h2 = filter (\<lambda>vb. \<not> RequireSchedule vb) (b @ a)"
    using Merge_loop_hard[of "b @ a" "[]" "[]"] r2 by simp
  ultimately have hard: "set h1 = set h2" by auto
  show ?thesis using soft hard by (simp add: Merge_def r1 r2)
qed

theorem Merge_commutes_witness:
  "set (fst (Merge [\<lparr>Source = ''AUTO'', Destination = ''/data'', Flags = ''rw'', SizeInBytes = 100\<rparr>,
                    ex_hard]
               [\<lparr>Source = ''AUTO'', Destination = ''/data'', Flags = ''rw'', SizeInBytes = - 30\<rparr>]))
     = {\<lparr>Source = ''AUTO'', Destination = ''/data'', Flags = ''rw'', SizeInBytes = 70\<rparr>}
   \<and> set (fst (Merge [\<lparr>Source = ''AUTO'', Destination = ''/data'', Flags = ''rw'', SizeInBytes = - 30\<rparr>]
               [\<lparr>Source = ''AUTO'', Destination = ''/data'', Flags = ''rw'', SizeInBytes = 100\<rparr>,
                ex_hard]))
     = {\<lparr>Source = ''AUTO'', Destination = ''/data'', Flags = ''rw'', SizeInBytes = 70\<rparr>}"
  using Merge_commutes[of
      "[\<lparr>Source = ''AUTO'', Destination = ''/data'', Flags = ''rw'', SizeInBytes = 100\<rparr>, ex_hard]"
      "[\<lparr>Source = ''AUTO'', Destination = ''/data'', Flags = ''rw'', SizeInBytes = - 30\<rparr>]"]
  by (simp add: Merge_def RequireSchedule_def HasSuffix_def AUTO_def ex_hard_def)

subsection \<open>ApplyPlan\<close>

lemma ApplyPlan_length: "length (ApplyPlan vbs plan) = length vbs"
  by (induction vbs) (auto simp: Let_def)

lemma ApplyPlan_nth:
  "i < length vbs \<Longrightarrow>
     ApplyPlan vbs plan ! i =
       (case GetVolumeMap plan (vbs ! i) of
          None \<Rightarrow> vbs ! i
        | Some vmap \<Rightarrow> (vbs ! i)\<lparr>Source := GetResourceID vmap\<rparr>)"
proof (induction vbs arbitrary: i)
  case Nil
  then show ?case by simp
next
  case (Cons vb vbs)
  show ?case
  proof (cases i)
    case 0
    then show ?thesis by (cases vb) (simp add: Let_def split: option.splits)
  next
    case (Suc j)
    then show ?thesis using Cons by (simp add: Let_def split: option.splits)
  qed
qed

lemma GetVolumeMap_unscheduled:
  "VolumePlan_ok plan \<Longrightarrow> \<not> RequireSchedule vb \<Longrightarrow> GetVolumeMap plan vb = None"
  by (induction plan) (auto simp: VolumePlan_ok_def GetVolumeMap_def)

text \<open>
  C8. The plan maps scheduled bindings only, as the data model has it. Then \<open>ApplyPlan\<close>
  returns as many bindings as it was given, and every binding that does not require a
  schedule comes back as it was, in its place: its \<open>Source\<close> is not replaced by a resource
  ID of the plan.
\<close>

theorem ApplyPlan_keeps_unscheduled:
  assumes "VolumePlan_ok plan" and "i < length vbs" and "\<not> RequireSchedule (vbs ! i)"
  shows "length (ApplyPlan vbs plan) = length vbs \<and> ApplyPlan vbs plan ! i = vbs ! i"
  using assms by (simp add: ApplyPlan_length ApplyPlan_nth GetVolumeMap_unscheduled)

theorem ApplyPlan_keeps_unscheduled_witness:
  "VolumePlan_ok ex_plan \<and> \<not> RequireSchedule ex_hard
   \<and> length (ApplyPlan [ex_auto, ex_hard] ex_plan) = 2
   \<and> ApplyPlan [ex_auto, ex_hard] ex_plan ! 1 = ex_hard
   \<and> ApplyPlan [ex_auto, ex_hard] ex_plan ! 0 = ex_auto\<lparr>Source := ''/sda1''\<rparr>"
proof -
  have ok: "VolumePlan_ok ex_plan"
    by (simp add: VolumePlan_ok_def ex_plan_def ex_auto_def RequireSchedule_def HasSuffix_def
        AUTO_def)
  have hard: "\<not> RequireSchedule ([ex_auto, ex_hard] ! 1)"
    by (simp add: RequireSchedule_def ex_hard_def)
  have "length (ApplyPlan [ex_auto, ex_hard] ex_plan) = length [ex_auto, ex_hard]
        \<and> ApplyPlan [ex_auto, ex_hard] ex_plan ! 1 = [ex_auto, ex_hard] ! 1"
    using ApplyPlan_keeps_unscheduled[OF ok _ hard] by simp
  moreover have "ApplyPlan [ex_auto, ex_hard] ex_plan ! 0 = ex_auto\<lparr>Source := ''/sda1''\<rparr>"
    by (simp add: ApplyPlan_nth GetVolumeMap_def GetResourceID_def ex_plan_def)
  ultimately show ?thesis using ok hard by simp
qed

section \<open>Properties of the deployment\<close>

lemmas launch_eval =
  doCreateAndStartContainer_def Txn_def Txn_rollback_def create_try_def create_then_def
  create_rollback_def doMakeContainerOptions_def MakeContainerName_def merge_hook_def Let_def

lemmas node_eval =
  doCreateContainerOnNode_def doCreateContainerOnNode_turn_def plan_at_def node_try_def
  node_then_def node_rollback_def doGetAndPrepareNode_def zero_message_def

lemmas ex_defs = ex_opts_def ex_node_def ex_nodeInfo_def ex_replica_def

subsection \<open>Labels\<close>

text \<open>
  C9, as the code has it. The two mandatory labels are in the map first and the labels
  of \<open>opts.Labels\<close> are stored over them: a label of the options wins for every key, the
  two mandatory keys included; a mandatory label keeps its value when the options have no
  label under its key.
\<close>

theorem doMakeContainerOptions_labels:
  "cfg_Labels (doMakeContainerOptions suffix meta index cpumap volumePlan opts nd) key =
     (case o_Labels opts key of
        Some v \<Rightarrow> Some v
      | None \<Rightarrow> (if key = LabelMeta then Some meta
                 else if key = ERUMark then Some ''1'' else None))"
  by (simp add: doMakeContainerOptions_def map_add_def split: option.splits)

text \<open>
  C9 as the spec words it fails: with the user label \<open>ERU_MARK = 0\<close> the engine options
  carry \<open>0\<close> under \<open>ERUMark\<close>, not the mandatory \<open>1\<close>.
\<close>

theorem user_label_overwrites_ERUMark:
  "cfg_Labels (doMakeContainerOptions ''abcdef'' ''meta'' 0 [] []
                 (ex_opts\<lparr>o_Labels := [ERUMark \<mapsto> ''0'']\<rparr>) ex_node) ERUMark = Some ''0''
   \<and> cfg_Labels (doMakeContainerOptions ''abcdef'' ''meta'' 0 [] []
                 (ex_opts\<lparr>o_Labels := [ERUMark \<mapsto> ''0'']\<rparr>) ex_node) ERUMark \<noteq> Some ''1''"
  by (simp add: doMakeContainerOptions_def ex_opts_def)

subsection \<open>The allocator fails\<close>

text \<open>
  C2, as the code has it. For options that pass the three checks, an error of the
  allocator comes back from \<open>CreateContainer\<close> together with the channel that
  \<open>doCreateContainer\<close> made: the channel is open, no goroutine was started, so nothing is
  ever sent on it and nothing ever closes it.
\<close>

theorem CreateContainer_alloc_error:
  assumes "doAllocResource (Normalize opts) = Inl e"
    and "0 < o_Count (Normalize opts)" "0 \<le> sint (o_Memory (Normalize opts))"
    and "0 \<le> o_CPUQuota (Normalize opts)"
  shows "CreateContainer Normalize doAllocResource opts
           = \<lparr>r_ch = Some Open, r_err = Some e, r_driver = None\<rparr>"
  using assms by (simp add: CreateContainer_def doCreateContainer_def Let_def)

theorem CreateContainer_alloc_error_witness:
  "CreateContainer (\<lambda>opts. opts) (\<lambda>opts. Inl (ErrExternal ''insufficient resource'')) ex_opts
     = \<lparr>r_ch = Some Open, r_err = Some (ErrExternal ''insufficient resource''), r_driver = None\<rparr>"
  using CreateContainer_alloc_error[of "\<lambda>opts. Inl (ErrExternal ''insufficient resource'')"
           "\<lambda>opts. opts" ex_opts "ErrExternal ''insufficient resource''"]
  by (simp add: ex_opts_def)

text \<open>
  C2 as the spec words it has the channel closed already. For the example request and an
  allocator that reports insufficient resources the channel is not closed, and no
  goroutine is there that could close it.
\<close>

theorem alloc_error_channel_not_closed:
  "r_err (CreateContainer (\<lambda>opts. opts) (\<lambda>opts. Inl (ErrExternal ''insufficient resource'')) ex_opts)
     = Some (ErrExternal ''insufficient resource'')
   \<and> r_ch (CreateContainer (\<lambda>opts. opts) (\<lambda>opts. Inl (ErrExternal ''insufficient resource'')) ex_opts)
     \<noteq> Some Closed
   \<and> r_driver (CreateContainer (\<lambda>opts. opts) (\<lambda>opts. Inl (ErrExternal ''insufficient resource'')) ex_opts)
     = None"
  by (simp add: CreateContainer_def doCreateContainer_def Let_def ex_opts_def)

subsection \<open>The closures of a turn find what they read\<close>

lemma node_try_node:
  "node_try w nodeInfo opts i cpu volumePlan s = (None, s1) \<Longrightarrow> node s1 \<noteq> None"
  by (auto simp: node_try_def doGetAndPrepareNode_def split: sum.splits)

lemma node_try_slot:
  "i < length (ms s) \<Longrightarrow> ms (snd (node_try w nodeInfo opts i cpu volumePlan s)) ! i \<noteq> None"
  by (auto simp: node_try_def split: prod.splits)

text \<open>
  A plan shorter than the deploy count stops the process at the first replica without a
  plan entry, after the replicas before it have been launched.
\<close>

lemma short_plan_panics:
  "doCreateContainerOnNode (\<lambda>no. ex_replica) (ex_nodeInfo\<lparr>ni_Deploy := 2, ni_CPUPlan := [[]]\<rparr>)
     ex_opts 0 = Inl IndexOutOfRange"
  by (simp add: node_eval doCreateContainerOnNode_loop.simps launch_eval ex_defs)

text \<open>
  An error while the data is copied into the container is returned from the first closure
  but is not in the \<open>err\<close> that the rollback reads: the message carries no error and no
  ID, and the container is not removed.
\<close>

lemma data_failure_is_not_reported:
  "doCreateAndStartContainer
       (ex_replica\<lparr>w_GetReader := (\<lambda>dst. Some (ErrExternal ''no reader''))\<rparr>)
       0 ex_node (ex_opts\<lparr>o_Data := [''/etc/conf'']\<rparr>) [] []
     = (\<lparr>m_Podname = ''pod'', m_Nodename = ''n1'', m_ContainerID = [],
         m_ContainerName = ''app_web_abcdef'', m_Error = None,
         m_CPU = [], m_Memory = 64, m_Storage = 0, m_VolumePlan = [], m_Publish = [],
         m_Hook = []\<rparr>,
        [CallVirtualizationCreate ''n1'' 0, CallGetReader ''/etc/conf''])"
  by (simp add: launch_eval ex_defs)

subsection \<open>The Prepare phase fails\<close>

text \<open>
  C3, as the code has it. When \<open>doGetAndPrepareNode\<close> returns an error for replica
  \<open>i\<close>, the turn of the loop leaves in \<open>ms[i]\<close> a message with that error and an empty
  \<open>ContainerID\<close>, and the rollback runs: it takes the lock of the node and, when it got
  the lock, calls \<open>UpdateNodeResource\<close> with \<open>ActionIncr\<close>.
\<close>

theorem prepare_failure_rolls_back:
  assumes "snd (fst (doGetAndPrepareNode (world (int i + index)) (ni_Name nodeInfo) (o_Image opts)))
             = Some e"
    and "plan_at (ni_CPUPlan nodeInfo) i [] = Inr cpu"
    and "plan_at (ni_VolumePlans nodeInfo) i [] = Inr volumePlan"
    and "i < length (ms s)"
  shows "\<exists>s'. doCreateContainerOnNode_turn world nodeInfo opts index i s = Inr s'
           \<and> ms s' ! i = Some (zero_message\<lparr>m_Error := Some e, m_CPU := cpu,
                                               m_VolumePlan := volumePlan\<rparr>)
           \<and> m_ContainerID (zero_message\<lparr>m_Error := Some e, m_CPU := cpu,
                                           m_VolumePlan := volumePlan\<rparr>) = []
           \<and> journal s' =
               journal s
               @ snd (doGetAndPrepareNode (world (int i + index)) (ni_Name nodeInfo) (o_Image opts))
               @ (case w_withNodeLocked (world (int i + index)) of
                    Inl e' \<Rightarrow> [CallLockNode (ni_Name nodeInfo)]
                  | Inr n \<Rightarrow> [CallLockNode (ni_Name nodeInfo),
                              CallUpdateNodeResource (n_Name n) ActionIncr])"
proof -
  let ?w = "world (int i + index)"
  let ?m = "zero_message\<lparr>m_Error := Some e, m_CPU := cpu, m_VolumePlan := volumePlan\<rparr>"
  obtain nd cs where prep:
    "doGetAndPrepareNode ?w (ni_Name nodeInfo) (o_Image opts) = ((nd, Some e), cs)"
    using assms(1) by (cases "doGetAndPrepareNode ?w (ni_Name nodeInfo) (o_Image opts)") auto
  let ?s0 = "s\<lparr>node := Some \<lparr>n_Name = []\<rparr>\<rparr>"
  let ?s1 = "?s0\<lparr>node := nd, ms := (ms ?s0)[i := Some ?m], journal := journal ?s0 @ cs\<rparr>"
  have tr: "node_try ?w nodeInfo opts i cpu volumePlan ?s0 = (Some e, ?s1)"
    by (simp add: node_try_def prep)
  have at_i: "ms ?s1 ! i = Some ?m"
    using assms(4) by simp
  have id_empty: "m_ContainerID ?m = []"
    by (simp add: zero_message_def)
  have rb: "snd (node_rollback ?w nodeInfo i ?s1) =
      ?s1\<lparr>journal := journal ?s1 @
         (case w_withNodeLocked ?w of
            Inl e' \<Rightarrow> [CallLockNode (ni_Name nodeInfo)]
          | Inr n \<Rightarrow> [CallLockNode (ni_Name nodeInfo),
                      CallUpdateNodeResource (n_Name n) ActionIncr])\<rparr>"
    unfolding node_rollback_def at_i using id_empty
    by (simp split: sum.splits)
  have txn: "snd (Txn (node_try ?w nodeInfo opts i cpu volumePlan)
                   (node_then ?w opts index i cpu volumePlan)
                   (Some (node_rollback ?w nodeInfo i)) ?s0)
             = snd (node_rollback ?w nodeInfo i ?s1)"
    by (simp add: Txn_def tr Txn_rollback_def)
  have turn: "doCreateContainerOnNode_turn world nodeInfo opts index i s
                = Inr (snd (node_rollback ?w nodeInfo i ?s1))"
    unfolding doCreateContainerOnNode_turn_def assms(2) assms(3)
    by (simp only: sum.case Let_def txn)
  show ?thesis
    unfolding turn rb using at_i id_empty prep
    by simp
qed

theorem prepare_failure_rolls_back_witness:
  "\<exists>s'. doCreateContainerOnNode_turn
            (\<lambda>no. ex_replica\<lparr>w_pullImage := Some (ErrExternal ''pull failed'')\<rparr>)
            ex_nodeInfo ex_opts 0 0 \<lparr>ms = [None], node = None, journal = []\<rparr> = Inr s'
        \<and> ms s' ! 0 = Some (zero_message\<lparr>m_Error := Some (ErrExternal ''pull failed'')\<rparr>)
        \<and> journal s' = [CallGetNode ''n1'', CallPullImage ''n1'' ''img'', CallLockNode ''n1'',
                         CallUpdateNodeResource ''n1'' ActionIncr]"
  using prepare_failure_rolls_back[of
      "\<lambda>no. ex_replica\<lparr>w_pullImage := Some (ErrExternal ''pull failed'')\<rparr>" 0 0 ex_nodeInfo
      ex_opts "ErrExternal ''pull failed''" "[]" "[]" "\<lparr>ms = [None], node = None, journal = []\<rparr>"]
  by (simp add: doGetAndPrepareNode_def plan_at_def zero_message_def ex_defs)

text \<open>
  C3 as the spec words it has no rollback after a failed Prepare. For one replica on a
  node that \<open>GetNode\<close> does not find, \<open>doCreateContainerOnNode\<close> locks the node and calls
  \<open>UpdateNodeResource\<close> with \<open>ActionIncr\<close>.
\<close>

theorem prepare_failure_releases_resources:
  "doCreateContainerOnNode (\<lambda>no. ex_replica\<lparr>w_GetNode := Inl (ErrExternal ''no such node'')\<rparr>)
       ex_nodeInfo ex_opts 0
     = Inr ([Some (zero_message\<lparr>m_Error := Some (ErrExternal ''no such node'')\<rparr>)],
            [CallGetNode ''n1'', CallLockNode ''n1'', CallUpdateNodeResource ''n1'' ActionIncr])"
  by (simp add: node_eval doCreateContainerOnNode_loop.simps Txn_def Txn_rollback_def ex_defs)

subsection \<open>A container that could not be removed\<close>

text \<open>
  C4 at a failing input. The engine creates the container \<open>c1\<close>, the start fails and
  the removal of the container fails as well. The message carries the error of the start
  and an empty \<open>ContainerID\<close>: the ID is put into the message only after
  \<open>AddContainer\<close> has succeeded. \<open>doCreateContainerOnNode\<close> then finds the empty ID and
  gives the resources of the node back although the container is still there.
\<close>

theorem leaked_container_has_empty_ContainerID:
  "doCreateAndStartContainer
       (ex_replica\<lparr>w_doStartContainer := ([], Some (ErrExternal ''start failed'')),
                    w_doRemoveContainer := Some (ErrExternal ''remove failed'')\<rparr>)
       0 ex_node ex_opts [] []
     = (\<lparr>m_Podname = ''pod'', m_Nodename = ''n1'', m_ContainerID = [],
         m_ContainerName = ''app_web_abcdef'', m_Error = Some (ErrExternal ''start failed''),
         m_CPU = [], m_Memory = 64, m_Storage = 0, m_VolumePlan = [], m_Publish = [],
         m_Hook = []\<rparr>,
        [CallVirtualizationCreate ''n1'' 0, CallStartContainer ''c1'', CallRemoveContainer ''c1''])
   \<and> doCreateContainerOnNode
       (\<lambda>no. ex_replica\<lparr>w_doStartContainer := ([], Some (ErrExternal ''start failed'')),
                          w_doRemoveContainer := Some (ErrExternal ''remove failed'')\<rparr>)
       ex_nodeInfo ex_opts 0
     = Inr ([Some \<lparr>m_Podname = ''pod'', m_Nodename = ''n1'', m_ContainerID = [],
                   m_ContainerName = ''app_web_abcdef'',
                   m_Error = Some (ErrExternal ''start failed''),
                   m_CPU = [], m_Memory = 64, m_Storage = 0, m_VolumePlan = [], m_Publish = [],
                   m_Hook = []\<rparr>],
            [CallGetNode ''n1'', CallPullImage ''n1'' ''img'',
             CallVirtualizationCreate ''n1'' 0, CallStartContainer ''c1'',
             CallRemoveContainer ''c1'',
             CallLockNode ''n1'', CallUpdateNodeResource ''n1'' ActionIncr])"
  by (simp add: node_eval doCreateContainerOnNode_loop.simps launch_eval ex_defs)

text \<open>
  The same for every launch, whatever the engine and the store answer: a message that
  carries an error carries no \<open>ContainerID\<close>, whether or not the container could be
  removed.
\<close>

lemma create_try_ContainerID:
  "m_ContainerID (createContainerMessage s) = [] \<Longrightarrow>
     m_ContainerID (createContainerMessage (snd (create_try w no nd opts cpu volumePlan s))) = []"
  by (simp add: create_try_def Let_def split: sum.splits prod.splits option.splits)

lemma create_try_Error:
  "m_Error (createContainerMessage s) = None \<Longrightarrow>
     m_Error (createContainerMessage (snd (create_try w no nd opts cpu volumePlan s))) = None"
  by (simp add: create_try_def Let_def split: sum.splits prod.splits option.splits)

lemma failed_launch_ContainerID_empty:
  assumes "m_Error (fst (doCreateAndStartContainer w no nd opts cpu volumePlan)) \<noteq> None"
  shows "m_ContainerID (fst (doCreateAndStartContainer w no nd opts cpu volumePlan)) = []"
proof -
  let ?s0 = "\<lparr>container =
           \<lparr>c_ID = [], c_Name = [], c_Podname = o_Podname opts, c_Nodename = n_Name nd,
            c_CPU = cpu, c_Memory = o_Memory opts, c_Storage = o_Storage opts,
            c_Hook = e_Hook (o_Entrypoint opts), c_Privileged = e_Privileged (o_Entrypoint opts),
            c_Image = o_Image opts, c_Env = o_Env opts, c_User = o_User opts,
            c_Labels = Map.empty, c_Volumes = o_Volumes opts, c_VolumePlan = volumePlan\<rparr>,
         createContainerMessage =
           \<lparr>m_Podname = o_Podname opts, m_Nodename = n_Name nd, m_ContainerID = [],
            m_ContainerName = [], m_Error = None, m_CPU = cpu, m_Memory = o_Memory opts,
            m_Storage = o_Storage opts, m_VolumePlan = volumePlan, m_Publish = [],
            m_Hook = []\<rparr>,
         err = None,
         calls = []\<rparr>"
  obtain e1 s1 where t: "create_try w no nd opts cpu volumePlan ?s0 = (e1, s1)"
    by (cases "create_try w no nd opts cpu volumePlan ?s0")
  have id1: "m_ContainerID (createContainerMessage s1) = []"
    using create_try_ContainerID[of ?s0 w no nd opts cpu volumePlan] t by simp
  have er1: "m_Error (createContainerMessage s1) = None"
    using create_try_Error[of ?s0 w no nd opts cpu volumePlan] t by simp
  show ?thesis
    using assms t id1 er1
    by (auto simp: doCreateAndStartContainer_def Let_def Txn_def Txn_rollback_def create_then_def
          create_rollback_def split: option.splits)
qed

subsection \<open>The goroutines and their shared state\<close>

lemma sum_list_map_update:
  fixes f :: "'a \<Rightarrow> nat"
  assumes "k < length ps"
  shows "sum_list (map f (ps[k := x])) + f (ps ! k) = sum_list (map f ps) + f x"
proof -
  have a: "ps = take k ps @ ps ! k # drop (Suc k) ps"
    using assms by (simp add: id_take_nth_drop)
  have b: "ps[k := x] = take k ps @ x # drop (Suc k) ps"
    using assms by (simp add: upd_conv_take_nth_drop)
  have "sum_list (map f ps) = sum_list (map f (take k ps)) + f (ps ! k) + sum_list (map f (drop (Suc k) ps))"
    by (subst a) simp
  moreover have "sum_list (map f (ps[k := x])) = sum_list (map f (take k ps)) + f x + sum_list (map f (drop (Suc k) ps))"
    by (subst b) simp
  ultimately show ?thesis by simp
qed


subsection \<open>Steps\<close>

lemma exec_single: "step s e s' \<Longrightarrow> exec s [e] s'"
  using exec_snoc[OF exec_nil, of s e s'] by simp

lemma exec_append: "exec s1 t2 s2 \<Longrightarrow> exec s t1 s1 \<Longrightarrow> exec s (t1 @ t2) s2"
proof (induction rule: exec.induct)
  case (exec_nil s1)
  then show ?case by simp
next
  case (exec_snoc s1 t2 s2 e s3)
  then show ?case using exec.exec_snoc[of s "t1 @ t2" s2 e s3] by simp
qed


lemma waiting_zero: "waiting pending = 0 \<Longrightarrow> list_all (\<lambda>p. p = []) pending"
  by (induction pending) (auto simp: waiting_def split: if_splits)

lemma waiting_all_empty: "list_all (\<lambda>p. p = []) pending \<Longrightarrow> waiting pending = 0"
  by (induction pending) (auto simp: waiting_def)

lemma waiting_pos: "k < length pending \<Longrightarrow> pending ! k \<noteq> [] \<Longrightarrow> 0 < waiting pending"
  using waiting_zero[of pending] by (auto simp: list_all_length)

lemma waiting_update:
  "k < length pending \<Longrightarrow>
     waiting (pending[k := cs]) + (if pending ! k = [] then 0 else 1)
       = waiting pending + (if cs = [] then 0 else 1)"
  unfolding waiting_def by (rule sum_list_map_update)

lemma sends_in_update:
  "k < length pending \<Longrightarrow>
     sends_in (pending[k := cs]) + length (filter is_send (pending ! k))
       = sends_in pending + length (filter is_send cs)"
  unfolding sends_in_def by (rule sum_list_map_update)

lemma sends_in_all_empty: "list_all (\<lambda>p. p = []) pending \<Longrightarrow> sends_in pending = 0"
  by (induction pending) (auto simp: sends_in_def)

lemma good_log_nonempty: "good_log p \<Longrightarrow> p \<noteq> []"
  by (auto simp: good_log_def)

lemma waiting_good: "list_all good_log ps \<Longrightarrow> waiting ps = length ps"
  by (induction ps) (auto simp: waiting_def good_log_nonempty)

text \<open>In a log that ends with its only \<open>WgDone\<close>, \<open>WgDone\<close> is the step with nothing after it.\<close>

lemma good_log_split:
  assumes "good_log p" "xs @ c # cs = p"
  shows "(c = WgDone) = (cs = [])" and "c \<noteq> Close"
proof -
  obtain b where b: "p = b @ [WgDone]" "WgDone \<notin> set b" "Close \<notin> set b"
    using assms(1) by (auto simp: good_log_def)
  show "(c = WgDone) = (cs = [])"
  proof (cases cs rule: rev_cases)
    case Nil
    then show ?thesis using assms(2) b(1) by auto
  next
    case (snoc cs' x)
    then have "b = xs @ c # cs'" using assms(2) b(1) by auto
    then show ?thesis using b(2) snoc by auto
  qed
  show "c \<noteq> Close"
  proof (cases cs rule: rev_cases)
    case Nil
    then show ?thesis using assms(2) b(1) by auto
  next
    case (snoc cs' x)
    then have "b = xs @ c # cs'" using assms(2) b(1) by auto
    then show ?thesis using b(3) by auto
  qed
qed

lemma routine_snoc:
  "routine k (t @ [(a, c)]) = (if a = NodeRoutine k then routine k t @ [c] else routine k t)"
  by (simp add: routine_def)


subsection \<open>The invariant of a run\<close>

lemma run_inv_start:
  "list_all good_log ps \<Longrightarrow> run_inv ps (driver_start (Some Open) ps) []"
  by (simp add: run_inv_def driver_start_def waiting_good routine_def)

lemma run_inv_node_step:
  assumes good: "list_all good_log ps" and inv: "run_inv ps s t"
    and k: "k < length (d_pending s)" and at: "d_pending s ! k = c # cs"
    and s': "s' = s\<lparr>d_pending := (d_pending s)[k := cs], d_wg := d_wg s - (if c = WgDone then 1 else 0)\<rparr>"
  shows "run_inv ps s' (t @ [(NodeRoutine k, c)])"
proof -
  have len: "length (d_pending s) = length ps" using inv by (simp add: run_inv_def)
  have kp: "k < length ps" using k len by simp
  have log: "routine k t @ c # cs = ps ! k" using inv kp at by (auto simp: run_inv_def)
  have gk: "good_log (ps ! k)" using good kp by (simp add: list_all_length)
  have last: "(c = WgDone) = (cs = [])" and nc: "c \<noteq> Close"
    using good_log_split[OF gk log] by auto
  have wg: "d_wg s = int (waiting (d_pending s))" using inv by (simp add: run_inv_def)
  have not_done: "\<not> d_done s"
  proof
    assume "d_done s"
    then have "waiting (d_pending s) = 0" using inv wg by (simp add: run_inv_def)
    then show False using waiting_pos[OF k] at by simp
  qed
  have c1: "length (d_pending s') = length ps" using s' len by simp
  have c2: "\<forall>j<length ps. routine j (t @ [(NodeRoutine k, c)]) @ d_pending s' ! j = ps ! j"
  proof (intro allI impI)
    fix j assume j: "j < length ps"
    have old: "routine j t @ d_pending s ! j = ps ! j" using inv j by (simp add: run_inv_def)
    show "routine j (t @ [(NodeRoutine k, c)]) @ d_pending s' ! j = ps ! j"
    proof (cases "j = k")
      case True
      then show ?thesis using log k s' by (simp add: routine_snoc)
    next
      case False
      then show ?thesis using old s' by (simp add: routine_snoc)
    qed
  qed
  have c3: "d_wg s' = int (waiting (d_pending s'))"
    using waiting_update[OF k, of cs] at last wg s' by (auto split: if_splits)
  have c4: "length (filter is_send (map snd (t @ [(NodeRoutine k, c)]))) + sends_in (d_pending s') = sends_in ps"
  proof -
    have "length (filter is_send (map snd t)) + sends_in (d_pending s) = sends_in ps"
      using inv by (simp add: run_inv_def)
    then show ?thesis using sends_in_update[OF k, of cs] at s' by (auto split: if_splits)
  qed
  have c5: "\<not> d_done s'" "d_ch s' = Some Open" "Close \<notin> set (map snd (t @ [(NodeRoutine k, c)]))"
    using not_done inv nc s' by (auto simp: run_inv_def)
  show ?thesis unfolding run_inv_def using c1 c2 c3 c4 c5 by simp
qed

lemma run_inv_close:
  assumes inv: "run_inv ps s t" and nd: "\<not> d_done s" and wg: "d_wg s = 0"
  shows "run_inv ps (s\<lparr>d_ch := Some Closed, d_done := True\<rparr>) (t @ [(Driver, Close)])"
  using assms by (simp add: run_inv_def routine_snoc)

lemma run_inv_step:
  assumes good: "list_all good_log ps" and inv: "run_inv ps s t" and st: "step s e s'"
  shows "run_inv ps s' (t @ [e])"
  using st
proof (cases rule: step.cases)
  case (step_call k c cs)
  then show ?thesis using run_inv_node_step[OF good inv, of k c cs s'] by simp
next
  case (step_send k m cs)
  then show ?thesis using run_inv_node_step[OF good inv, of k "Send m" cs s'] by simp
next
  case (step_wg_done k cs)
  then show ?thesis using run_inv_node_step[OF good inv, of k WgDone cs s'] by simp
next
  case step_close
  then show ?thesis using run_inv_close[OF inv] by simp
qed

lemma run_inv_exec:
  assumes good: "list_all good_log ps"
  shows "exec s0 t s \<Longrightarrow> s0 = driver_start (Some Open) ps \<Longrightarrow> run_inv ps s t"
proof (induction rule: exec.induct)
  case (exec_nil s)
  then show ?case using run_inv_start[OF good] by simp
next
  case (exec_snoc s t s1 e s2)
  then show ?case using run_inv_step[OF good] by simp
qed

text \<open>Progress: while a goroutine has a step left, or the driver has not yet closed the channel,
  some step is enabled.\<close>

lemma run_inv_all_empty:
  assumes "run_inv ps s t" "d_done s"
  shows "list_all (\<lambda>p. p = []) (d_pending s)"
  using assms waiting_zero[of "d_pending s"] by (simp add: run_inv_def)

lemma run_inv_stuck:
  assumes good: "list_all good_log ps" and inv: "run_inv ps s t" and stuck: "stuck s"
  shows "d_done s"
proof (rule ccontr)
  assume nd: "\<not> d_done s"
  then have ch: "d_ch s = Some Open" using inv by (simp add: run_inv_def)
  have len: "length (d_pending s) = length ps" using inv by (simp add: run_inv_def)
  have wg: "d_wg s = int (waiting (d_pending s))" using inv by (simp add: run_inv_def)
  show False
  proof (cases "list_all (\<lambda>p. p = []) (d_pending s)")
    case True
    then have "d_wg s = 0" using wg waiting_all_empty by simp
    then have "step s (Driver, Close) (s\<lparr>d_ch := Some Closed, d_done := True\<rparr>)"
      using nd ch by (simp add: step_close)
    then show False using stuck by (auto simp: stuck_def)
  next
    case False
    then obtain k where k: "k < length (d_pending s)" and ne: "d_pending s ! k \<noteq> []"
      by (auto simp: list_all_length)
    then obtain c cs where at: "d_pending s ! k = c # cs" by (cases "d_pending s ! k") auto
    have pos: "0 < d_wg s" using wg waiting_pos[OF k ne] by simp
    have "\<exists>s'. step s (NodeRoutine k, c) s'"
    proof (cases c)
      case (Send m)
      then show ?thesis using step_send[OF k _ ch, of m cs] at by auto
    next
      case WgDone
      then show ?thesis using step_wg_done[OF k _ pos, of cs] at by auto
    next
      case Close
      have "routine k t @ c # cs = ps ! k" using inv k len at by (auto simp: run_inv_def)
      moreover have "good_log (ps ! k)" using good k len by (simp add: list_all_length)
      ultimately show ?thesis using good_log_split(2) Close by blast
    qed (use step_call[OF k at] in auto)
    then show False using stuck by (auto simp: stuck_def)
  qed
qed




subsection \<open>What the launch of the replicas writes to the log\<close>

lemma Txn_establishes:
  assumes "P0 s" "\<And>s. P0 s \<Longrightarrow> P (snd (try_f s))" "\<And>s. P s \<Longrightarrow> P (snd (then_f s))"
    "\<And>s. P s \<Longrightarrow> P (snd (rb s))"
  shows "P (snd (Txn try_f then_f (Some rb) s))"
proof (cases "try_f s")
  case (Pair e1 s1)
  have p1: "P s1" using assms(2)[OF assms(1)] Pair by simp
  show ?thesis
  proof (cases e1)
    case (Some e)
    then show ?thesis using Pair assms(4)[OF p1] by (simp add: Txn_def Txn_rollback_def)
  next
    case None
    obtain e2 s2 where t: "then_f s1 = (e2, s2)" by (cases "then_f s1")
    have p2: "P s2" using assms(3)[OF p1] t by simp
    show ?thesis
      using Pair None t p2 assms(4)[OF p2]
      by (cases e2) (simp_all add: Txn_def Txn_rollback_def)
  qed
qed

lemma Txn_preserves:
  assumes "\<And>s. P s \<Longrightarrow> P (snd (try_f s))" "\<And>s. P s \<Longrightarrow> P (snd (then_f s))"
    "\<And>s. P s \<Longrightarrow> P (snd (rb s))" "P s"
  shows "P (snd (Txn try_f then_f (Some rb) s))"
  using Txn_establishes[of P s P try_f then_f rb] assms by blast

lemma send_data_launch:
  "list_all is_launch_call cs \<Longrightarrow> list_all is_launch_call (snd (send_data w cid dsts cs))"
  by (induction dsts arbitrary: cs) (auto split: option.splits)

lemma create_try_launch:
  assumes "list_all is_launch_call (calls s)"
  shows "list_all is_launch_call (calls (snd (create_try w no nd opts cpu volumePlan s)))"
proof -
  let ?cs0 = "calls s @ [CallVirtualizationCreate (n_Name nd) no]"
  have c0: "list_all is_launch_call ?cs0" using assms by simp
  show ?thesis
  proof (cases "w_VirtualizationCreate w")
    case (Inl e)
    then show ?thesis using c0 by (simp add: create_try_def Let_def)
  next
    case (Inr cid)
    obtain e cs where sd: "send_data w cid (o_Data opts) ?cs0 = (e, cs)"
      by (cases "send_data w cid (o_Data opts) ?cs0")
    have c1: "list_all is_launch_call cs"
      using send_data_launch[OF c0, of w cid "o_Data opts"] sd by simp
    show ?thesis
      using Inr sd c1
      by (cases e) (simp_all add: create_try_def Let_def split: option.splits sum.splits)
  qed
qed

lemma create_then_launch:
  "list_all is_launch_call (calls s) \<Longrightarrow> list_all is_launch_call (calls (snd (create_then w s)))"
  by (simp add: create_then_def Let_def split: option.splits)

lemma create_rollback_launch:
  "list_all is_launch_call (calls s) \<Longrightarrow> list_all is_launch_call (calls (snd (create_rollback w s)))"
  by (simp add: create_rollback_def Let_def split: option.splits)

lemma doCreateAndStartContainer_launch:
  "list_all is_launch_call (snd (doCreateAndStartContainer w no nd opts cpu volumePlan))"
  unfolding doCreateAndStartContainer_def Let_def snd_conv
  by (rule Txn_preserves[where P = "\<lambda>s. list_all is_launch_call (calls s)"])
     (simp_all add: create_try_launch create_then_launch create_rollback_launch)

lemma doGetAndPrepareNode_launch:
  "list_all is_launch_call (snd (doGetAndPrepareNode w nodename img))"
  by (simp add: doGetAndPrepareNode_def split: sum.splits)

lemma node_try_inv:
  "turn_inv n s \<Longrightarrow> turn_inv n (snd (node_try w nodeInfo opts i cpu volumePlan s))"
  using doGetAndPrepareNode_launch[of w "ni_Name nodeInfo" "o_Image opts"]
  by (auto simp: node_try_def turn_inv_def split: prod.splits)

lemma node_then_inv:
  "turn_inv n s \<Longrightarrow> turn_inv n (snd (node_then w opts index i cpu volumePlan s))"
  using doCreateAndStartContainer_launch
  by (auto simp: node_then_def turn_inv_def split: prod.splits option.splits)
     (metis snd_conv)

lemma node_rollback_inv:
  "turn_inv n s \<Longrightarrow> turn_inv n (snd (node_rollback w nodeInfo i s))"
  by (auto simp: node_rollback_def turn_inv_def split: option.splits sum.splits)

lemma plan_at_ok:
  "plans = [] \<or> int (length plans) = d \<Longrightarrow> int i < d \<Longrightarrow> \<exists>x. plan_at plans i dflt = Inr x"
  by (auto simp: plan_at_def)

lemma turn_ok:
  assumes "NodeInfo_ok nodeInfo" "int i < ni_Deploy nodeInfo" "turn_inv n s"
  shows "\<exists>s'. doCreateContainerOnNode_turn world nodeInfo opts index i s = Inr s' \<and> turn_inv n s'"
proof -
  obtain cpu where cpu: "plan_at (ni_CPUPlan nodeInfo) i [] = Inr cpu"
    using plan_at_ok[of "ni_CPUPlan nodeInfo" "ni_Deploy nodeInfo" i "[]"] assms(1,2)
    by (auto simp: NodeInfo_ok_def)
  obtain vp where vp: "plan_at (ni_VolumePlans nodeInfo) i [] = Inr vp"
    using plan_at_ok[of "ni_VolumePlans nodeInfo" "ni_Deploy nodeInfo" i "[]"] assms(1,2)
    by (auto simp: NodeInfo_ok_def)
  have s0: "turn_inv n (s\<lparr>node := Some \<lparr>n_Name = []\<rparr>\<rparr>)"
    using assms(3) by (simp add: turn_inv_def)
  have "turn_inv n (snd (Txn (node_try (world (int i + index)) nodeInfo opts i cpu vp)
                            (node_then (world (int i + index)) opts index i cpu vp)
                            (Some (node_rollback (world (int i + index)) nodeInfo i))
                            (s\<lparr>node := Some \<lparr>n_Name = []\<rparr>\<rparr>)))"
    by (rule Txn_preserves[where P = "turn_inv n"])
       (simp_all add: node_try_inv node_then_inv node_rollback_inv s0)
  then show ?thesis
    by (simp add: doCreateContainerOnNode_turn_def cpu vp Let_def)
qed

text \<open>A turn of the loop fills slot \<open>i\<close> of \<open>ms\<close> and no other.\<close>

lemma turn_slot:
  assumes "doCreateContainerOnNode_turn world nodeInfo opts index i s = Inr s'"
  shows "\<exists>m. ms s' = (ms s)[i := Some m]"
proof -
  obtain cpu where cpu: "plan_at (ni_CPUPlan nodeInfo) i [] = Inr cpu"
    using assms by (cases "plan_at (ni_CPUPlan nodeInfo) i []")
      (simp_all add: doCreateContainerOnNode_turn_def)
  obtain vp where vp: "plan_at (ni_VolumePlans nodeInfo) i [] = Inr vp"
    using assms cpu by (cases "plan_at (ni_VolumePlans nodeInfo) i []")
      (simp_all add: doCreateContainerOnNode_turn_def)
  let ?w = "world (int i + index)"
  let ?s0 = "s\<lparr>node := Some \<lparr>n_Name = []\<rparr>\<rparr>"
  let ?Q = "\<lambda>x::NodeState. \<exists>m. ms x = (ms s)[i := Some m]"
  have "?Q (snd (Txn (node_try ?w nodeInfo opts i cpu vp) (node_then ?w opts index i cpu vp)
                   (Some (node_rollback ?w nodeInfo i)) ?s0))"
  proof (rule Txn_establishes[where ?P0.0 = "\<lambda>x::NodeState. ms x = ms s" and P = ?Q])
    show "ms ?s0 = ms s" by simp
  next
    fix x :: NodeState assume "ms x = ms s"
    then show "?Q (snd (node_try ?w nodeInfo opts i cpu vp x))"
      by (auto simp: node_try_def split: prod.splits)
  next
    fix x :: NodeState assume "?Q x"
    then show "?Q (snd (node_then ?w opts index i cpu vp x))"
      by (auto simp: node_then_def split: prod.splits option.splits)
  next
    fix x :: NodeState assume "?Q x"
    then show "?Q (snd (node_rollback ?w nodeInfo i x))"
      by (auto simp: node_rollback_def split: sum.splits option.splits)
  qed
  then show ?thesis
    using assms by (simp add: doCreateContainerOnNode_turn_def cpu vp Let_def)
qed

lemma loop_ok:
  "NodeInfo_ok nodeInfo \<Longrightarrow> turn_inv n s \<Longrightarrow> n = nat (ni_Deploy nodeInfo) \<Longrightarrow> i \<le> n \<Longrightarrow>
   list_all (\<lambda>m. m \<noteq> None) (take i (ms s)) \<Longrightarrow>
     \<exists>s'. doCreateContainerOnNode_loop world nodeInfo opts index i s = Inr s' \<and> turn_inv n s'
          \<and> list_all (\<lambda>m. m \<noteq> None) (ms s')"
proof (induction world nodeInfo opts index i s rule: doCreateContainerOnNode_loop.induct)
  case (1 world nodeInfo opts index i s)
  show ?case
  proof (cases "int i < ni_Deploy nodeInfo")
    case False
    then have "i = n" using 1(4,5) by simp
    then have "take i (ms s) = ms s" using 1(3) by (simp add: turn_inv_def)
    then show ?thesis
      using False 1(3,6) by (subst doCreateContainerOnNode_loop.simps) simp
  next
    case True
    obtain s1 where s1: "doCreateContainerOnNode_turn world nodeInfo opts index i s = Inr s1"
        "turn_inv n s1"
      using turn_ok[OF 1(2) True 1(3)] by blast
    obtain m where m: "ms s1 = (ms s)[i := Some m]"
      using turn_slot[OF s1(1)] by blast
    have lt: "i < length (ms s)" using True 1(3,4) by (simp add: turn_inv_def)
    have "take (Suc i) (ms s1) = take i (ms s) @ [Some m]"
      using lt by (simp add: m take_Suc_conv_app_nth)
    then have filled: "list_all (\<lambda>m. m \<noteq> None) (take (Suc i) (ms s1))"
      using 1(6) by simp
    have le: "Suc i \<le> n" using True 1(4) by simp
    obtain s' where "doCreateContainerOnNode_loop world nodeInfo opts index (Suc i) s1 = Inr s'"
        "turn_inv n s'" "list_all (\<lambda>m. m \<noteq> None) (ms s')"
      using 1(1)[OF True s1(1) 1(2) s1(2) 1(4) le filled] by blast
    then show ?thesis
      using True s1(1) by (subst doCreateContainerOnNode_loop.simps) simp
  qed
qed

lemma doCreateContainerOnNode_ok:
  assumes "NodeInfo_ok nodeInfo"
  shows "\<exists>msgs launch. doCreateContainerOnNode world nodeInfo opts index = Inr (msgs, launch)
           \<and> length msgs = nat (ni_Deploy nodeInfo) \<and> list_all (\<lambda>m. m \<noteq> None) msgs
           \<and> list_all is_launch_call launch"
proof -
  let ?s0 = "\<lparr>ms = replicate (nat (ni_Deploy nodeInfo)) None, node = None, journal = []\<rparr>"
  have "turn_inv (nat (ni_Deploy nodeInfo)) ?s0" by (simp add: turn_inv_def)
  then obtain s' where "doCreateContainerOnNode_loop world nodeInfo opts index 0 ?s0 = Inr s'"
      "turn_inv (nat (ni_Deploy nodeInfo)) s'" "list_all (\<lambda>m. m \<noteq> None) (ms s')"
    using loop_ok[OF assms, of "nat (ni_Deploy nodeInfo)" ?s0 0 world opts index] by auto
  then show ?thesis
    using assms by (simp add: doCreateContainerOnNode_def NodeInfo_ok_def turn_inv_def)
qed

subsection \<open>The goroutine of a node\<close>

lemma send_all_eq: "send_all nodeInfo i msgs cs = cs @ sends nodeInfo i msgs"
  by (induction msgs arbitrary: i cs)
     (simp_all add: sends_def Txn_def send_try_def send_then_def)

lemma sends_filter: "filter is_send (sends nodeInfo i msgs) = map Send msgs"
  by (induction msgs arbitrary: i) (simp_all add: sends_def)

lemma sends_not_launch: "list_all (\<lambda>c. \<not> is_launch_call c) (sends nodeInfo i msgs)"
  by (induction msgs arbitrary: i) (simp_all add: sends_def)

lemma node_goroutine_eq:
  assumes "doCreateContainerOnNode world nodeInfo opts index = Inr (msgs, launch)"
  shows "node_goroutine world opts nodeInfo index =
           Inr (launch @ sends nodeInfo 0 msgs @ [CallDeleteProcessing (ni_Name nodeInfo), WgDone])"
  using assms
  by (simp add: node_goroutine_def Txn_def deploy_try_def deploy_then_def send_all_eq)

lemma spawn_length: "length (spawn world opts nodesInfo index) = length nodesInfo"
  by (induction nodesInfo arbitrary: index) auto

lemma spawn_nth:
  "k < length nodesInfo \<Longrightarrow>
     spawn world opts nodesInfo index ! k =
       node_goroutine world opts (nodesInfo ! k) (index + offset nodesInfo k)"
proof (induction nodesInfo arbitrary: index k)
  case Nil
  then show ?case by simp
next
  case (Cons a nodesInfo)
  show ?case
  proof (cases k)
    case 0
    then show ?thesis by (simp add: offset_def)
  next
    case (Suc j)
    then show ?thesis using Cons by (simp add: offset_def add.assoc)
  qed
qed



subsection \<open>Runs of the driver\<close>

lemma sends_no_Close: "Close \<notin> set (sends nodeInfo i msgs)"
  by (induction msgs arbitrary: i) (simp_all add: sends_def)

lemma launch_no_Close: "list_all is_launch_call cs \<Longrightarrow> Close \<notin> set cs"
  by (induction cs) auto

lemma sum_nat_Deploy:
  "list_all NodeInfo_ok nodesInfo \<Longrightarrow>
     sum_list (map (\<lambda>ni. nat (ni_Deploy ni)) nodesInfo) = nat (sum_list (map ni_Deploy nodesInfo))"
proof (induction nodesInfo)
  case Nil
  then show ?case by simp
next
  case (Cons a nodesInfo)
  have "0 \<le> ni_Deploy a" using Cons.prems by (simp add: NodeInfo_ok_def)
  moreover have "0 \<le> sum_list (map ni_Deploy nodesInfo)"
    using Cons.prems by (auto intro!: sum_list_nonneg simp: list_all_iff NodeInfo_ok_def)
  ultimately show ?case using Cons by (simp add: nat_add_distrib)
qed


lemma sends_no_WgDone: "WgDone \<notin> set (sends nodeInfo i msgs)"
  by (induction msgs arbitrary: i) (simp_all add: sends_def)

lemma launch_no_WgDone: "list_all is_launch_call cs \<Longrightarrow> WgDone \<notin> set cs"
  by (induction cs) auto

lemma launch_no_sends: "list_all is_launch_call cs \<Longrightarrow> filter is_send cs = []"
  by (induction cs) (auto elim: is_launch_call.elims)

text \<open>
  The log of the goroutine of node \<open>k\<close>: the launch log of \<open>doCreateContainerOnNode\<close>,
  then its messages, each followed by the update of the processing count, then the deletion
  of the processing row and \<open>wg.Done()\<close>.
\<close>

lemma spawn_log:
  assumes ok: "list_all NodeInfo_ok nodesInfo"
    and sp: "spawn world opts nodesInfo 0 = map Inr ps"
    and k: "k < length nodesInfo"
  shows "\<exists>msgs launch.
           doCreateContainerOnNode world (nodesInfo ! k) opts (offset nodesInfo k) = Inr (msgs, launch)
           \<and> length msgs = nat (ni_Deploy (nodesInfo ! k))
           \<and> list_all (\<lambda>m. m \<noteq> None) msgs
           \<and> list_all is_launch_call launch
           \<and> ps ! k = launch @ sends (nodesInfo ! k) 0 msgs
                              @ [CallDeleteProcessing (ni_Name (nodesInfo ! k)), WgDone]"
proof -
  have len: "length ps = length nodesInfo"
    using sp spawn_length[of world opts nodesInfo 0] by (metis length_map)
  have okk: "NodeInfo_ok (nodesInfo ! k)" using ok k by (simp add: list_all_length)
  obtain msgs launch where
    r: "doCreateContainerOnNode world (nodesInfo ! k) opts (offset nodesInfo k) = Inr (msgs, launch)"
      "length msgs = nat (ni_Deploy (nodesInfo ! k))" "list_all is_launch_call launch"
      "list_all (\<lambda>m. m \<noteq> None) msgs"
    using doCreateContainerOnNode_ok[OF okk] by blast
  have "Inr (ps ! k) = spawn world opts nodesInfo 0 ! k"
    using sp k len by simp
  also have "\<dots> = node_goroutine world opts (nodesInfo ! k) (offset nodesInfo k)"
    using spawn_nth[OF k, of world opts 0] by simp
  also have "\<dots> = Inr (launch @ sends (nodesInfo ! k) 0 msgs
                         @ [CallDeleteProcessing (ni_Name (nodesInfo ! k)), WgDone])"
    by (rule node_goroutine_eq[OF r(1)])
  finally have "ps ! k = launch @ sends (nodesInfo ! k) 0 msgs
                         @ [CallDeleteProcessing (ni_Name (nodesInfo ! k)), WgDone]"
    by simp
  then show ?thesis using r by simp
qed

lemma spawn_good:
  assumes ok: "list_all NodeInfo_ok nodesInfo"
    and sp: "spawn world opts nodesInfo 0 = map Inr ps"
  shows "list_all good_log ps"
proof -
  have len: "length ps = length nodesInfo"
    using sp spawn_length[of world opts nodesInfo 0] by (metis length_map)
  have "good_log (ps ! k)" if k: "k < length ps" for k
  proof -
    obtain msgs launch where l: "list_all is_launch_call launch"
      and pk: "ps ! k = launch @ sends (nodesInfo ! k) 0 msgs
                              @ [CallDeleteProcessing (ni_Name (nodesInfo ! k)), WgDone]"
      using spawn_log[OF ok sp, of k] k len by auto
    have "ps ! k = (launch @ sends (nodesInfo ! k) 0 msgs
                      @ [CallDeleteProcessing (ni_Name (nodesInfo ! k))]) @ [WgDone]"
      using pk by simp
    moreover have "WgDone \<notin> set (launch @ sends (nodesInfo ! k) 0 msgs
                      @ [CallDeleteProcessing (ni_Name (nodesInfo ! k))])"
      using launch_no_WgDone[OF l] sends_no_WgDone by simp
    moreover have "Close \<notin> set (launch @ sends (nodesInfo ! k) 0 msgs
                      @ [CallDeleteProcessing (ni_Name (nodesInfo ! k))])"
      using launch_no_Close[OF l] sends_no_Close by simp
    ultimately show ?thesis unfolding good_log_def by blast
  qed
  then show ?thesis by (simp add: list_all_length)
qed

lemma spawn_sends:
  assumes ok: "list_all NodeInfo_ok nodesInfo"
    and sp: "spawn world opts nodesInfo 0 = map Inr ps"
  shows "sends_in ps = nat (sum_list (map ni_Deploy nodesInfo))"
proof -
  have len: "length ps = length nodesInfo"
    using sp spawn_length[of world opts nodesInfo 0] by (metis length_map)
  have cnt: "length (filter is_send (ps ! k)) = nat (ni_Deploy (nodesInfo ! k))"
    if k: "k < length nodesInfo" for k
    using spawn_log[OF ok sp k] launch_no_sends by (auto simp: sends_filter)
  have "map (\<lambda>p. length (filter is_send p)) ps = map (\<lambda>ni. nat (ni_Deploy ni)) nodesInfo"
    using cnt len by (intro nth_equalityI) simp_all
  then show ?thesis using sum_nat_Deploy[OF ok] by (simp add: sends_in_def)
qed

text \<open>
  A run on the channel that \<open>make\<close> returned: it ends when every goroutine has run its whole
  log and the driver has closed the channel, which it does last and once.
\<close>

lemma run_end:
  assumes ok: "list_all NodeInfo_ok nodesInfo"
    and sp: "spawn world opts nodesInfo 0 = map Inr ps"
    and ex: "exec (driver_start (Some Open) ps) t s'" and stuck: "stuck s'"
  shows "\<forall>k<length nodesInfo. routine k t = ps ! k"
    and "length (filter is_send (map snd t)) = nat (sum_list (map ni_Deploy nodesInfo))"
    and "t = butlast t @ [(Driver, Close)]"
    and "Close \<notin> set (map snd (butlast t))"
    and "d_ch s' = Some Closed" and "d_wg s' = 0" and "list_all (\<lambda>p. p = []) (d_pending s')"
proof -
  have len: "length ps = length nodesInfo"
    using sp spawn_length[of world opts nodesInfo 0] by (metis length_map)
  have good: "list_all good_log ps" by (rule spawn_good[OF ok sp])
  have inv: "run_inv ps s' t" using run_inv_exec[OF good ex] by simp
  have fin: "d_done s'" by (rule run_inv_stuck[OF good inv stuck])
  show empty: "list_all (\<lambda>p. p = []) (d_pending s')" by (rule run_inv_all_empty[OF inv fin])
  show "\<forall>k<length nodesInfo. routine k t = ps ! k"
  proof (intro allI impI)
    fix k assume k: "k < length nodesInfo"
    have "d_pending s' ! k = []" using empty inv k len by (simp add: run_inv_def list_all_length)
    moreover have "routine k t @ d_pending s' ! k = ps ! k"
      using inv k len by (simp add: run_inv_def)
    ultimately show "routine k t = ps ! k" by simp
  qed
  show "length (filter is_send (map snd t)) = nat (sum_list (map ni_Deploy nodesInfo))"
    using inv sends_in_all_empty[OF empty] spawn_sends[OF ok sp] by (simp add: run_inv_def)
  have "t \<noteq> []" "last t = (Driver, Close)" using inv fin by (simp_all add: run_inv_def)
  then show "t = butlast t @ [(Driver, Close)]" using append_butlast_last_id[of t] by simp
  show "Close \<notin> set (map snd (butlast t))" using inv fin by (simp add: run_inv_def)
  show "d_ch s' = Some Closed" using inv fin by (simp add: run_inv_def)
  show "d_wg s' = 0" using inv fin by (simp add: run_inv_def)
qed

lemma run_routine:
  assumes ok: "list_all NodeInfo_ok nodesInfo"
    and run: "driver_run world opts nodesInfo t"
    and k: "k < length nodesInfo"
  shows "\<exists>msgs launch.
           doCreateContainerOnNode world (nodesInfo ! k) opts (offset nodesInfo k) = Inr (msgs, launch)
           \<and> length msgs = nat (ni_Deploy (nodesInfo ! k))
           \<and> list_all (\<lambda>m. m \<noteq> None) msgs
           \<and> list_all is_launch_call launch
           \<and> routine k t = launch @ sends (nodesInfo ! k) 0 msgs
                              @ [CallDeleteProcessing (ni_Name (nodesInfo ! k)), WgDone]"
proof -
  from run obtain ps s' where sp: "spawn world opts nodesInfo 0 = map Inr ps"
    and ex: "exec (driver_start (Some Open) ps) t s'" and stuck: "stuck s'"
    by (auto elim!: driver_run.cases driver_exec.cases)
  have "routine k t = ps ! k" using run_end(1)[OF ok sp ex stuck] k by simp
  then show ?thesis using spawn_log[OF ok sp k] by simp
qed

text \<open>On a nil channel nothing is sent and nothing is closed.\<close>

lemma nil_channel_silent:
  "exec s0 t s \<Longrightarrow> s0 = driver_start None ps \<Longrightarrow>
     d_ch s = None \<and> filter is_send (map snd t) = [] \<and> Close \<notin> set (map snd t)"
proof (induction rule: exec.induct)
  case (exec_nil s)
  then show ?case by (simp add: driver_start_def)
next
  case (exec_snoc s t s1 e s2)
  from exec_snoc(2) show ?case using exec_snoc(3)[OF exec_snoc(4)]
    by (cases rule: step.cases) auto
qed



text \<open>One goroutine runs a block of its steps while the channel is open.\<close>

lemma exec_block:
  "k < length (d_pending s) \<Longrightarrow> d_pending s ! k = p @ cs \<Longrightarrow> WgDone \<notin> set p \<Longrightarrow> Close \<notin> set p
     \<Longrightarrow> d_ch s = Some Open
     \<Longrightarrow> exec s (map (Pair (NodeRoutine k)) p) (s\<lparr>d_pending := (d_pending s)[k := cs]\<rparr>)"
proof (induction p arbitrary: cs rule: rev_induct)
  case Nil
  then have "(d_pending s)[k := cs] = d_pending s" by (simp add: list_update_same_conv)
  then show ?case using exec_nil[of s] by simp
next
  case (snoc c p)
  let ?s1 = "s\<lparr>d_pending := (d_pending s)[k := c # cs]\<rparr>"
  have e: "exec s (map (Pair (NodeRoutine k)) p) ?s1"
    using snoc.IH[of "c # cs"] snoc.prems by simp
  have k1: "k < length (d_pending ?s1)" and at: "d_pending ?s1 ! k = c # cs"
    and ch: "d_ch ?s1 = Some Open"
    using snoc.prems by simp_all
  have "step ?s1 (NodeRoutine k, c) (?s1\<lparr>d_pending := (d_pending ?s1)[k := cs]\<rparr>)"
  proof (cases "is_send c")
    case True
    then obtain m where "c = Send m" by (cases c) auto
    then show ?thesis using step_send[OF k1 _ ch, of m cs] at by simp
  next
    case False
    then show ?thesis using step_call[OF k1 at] snoc.prems by auto
  qed
  then have "step ?s1 (NodeRoutine k, c) (s\<lparr>d_pending := (d_pending s)[k := cs]\<rparr>)"
    by simp
  then show ?case using exec_snoc[OF e] by simp
qed

lemma exec_finish:
  assumes k: "k < length (d_pending s)" and at: "d_pending s ! k = p @ [WgDone]"
    and p: "WgDone \<notin> set p" "Close \<notin> set p" and ch: "d_ch s = Some Open" and wg: "0 < d_wg s"
  shows "exec s (map (Pair (NodeRoutine k)) (p @ [WgDone]))
           (s\<lparr>d_pending := (d_pending s)[k := []], d_wg := d_wg s - 1\<rparr>)"
proof -
  let ?s1 = "s\<lparr>d_pending := (d_pending s)[k := [WgDone]]\<rparr>"
  have e: "exec s (map (Pair (NodeRoutine k)) p) ?s1" by (rule exec_block[OF k at p ch])
  have "step ?s1 (NodeRoutine k, WgDone)
          (?s1\<lparr>d_pending := (d_pending ?s1)[k := []], d_wg := d_wg ?s1 - 1\<rparr>)"
    using k wg by (intro step_wg_done) simp_all
  then show ?thesis using exec_snoc[OF e] by simp
qed

lemma ex_OnNode:
  "doCreateContainerOnNode ex_world ex_nodeInfo ex_opts 0 = Inr ([Some ex_message], ex_launch)"
  by (simp add: node_eval doCreateContainerOnNode_loop.simps launch_eval ex_defs ex_world_def
      ex_message_def ex_launch_def)

lemma ex_OnNode2:
  "doCreateContainerOnNode ex_world (ex_nodeInfo\<lparr>ni_Name := ''n2''\<rparr>) ex_opts 1
     = Inr ([Some ex_message2], ex_launch2)"
  by (simp add: node_eval doCreateContainerOnNode_loop.simps launch_eval ex_defs ex_world_def
      ex_message_def ex_message2_def ex_launch2_def)


lemma ex_final_stuck: "stuck ex_final"
  by (auto simp: stuck_def ex_final_def nth_Cons' elim!: step.cases split: if_splits)

lemma ex_run_is_exec: "driver_exec (Some Open) ex_world ex_opts ex_nodesInfo ex_run ex_final"
proof -
  have g1: "node_goroutine ex_world ex_opts ex_nodeInfo 0 = Inr (ex_launch @ ex_sends)"
    by (subst node_goroutine_eq[OF ex_OnNode]) (simp add: sends_def ex_nodeInfo_def ex_sends_def)
  have g2: "node_goroutine ex_world ex_opts (ex_nodeInfo\<lparr>ni_Name := ''n2''\<rparr>) 1
              = Inr ((ex_launch2 @ ex_sends2) @ ex_done2)"
    by (subst node_goroutine_eq[OF ex_OnNode2])
       (simp add: sends_def ex_nodeInfo_def ex_sends2_def ex_done2_def)
  have sp: "spawn ex_world ex_opts ex_nodesInfo 0
              = map Inr [ex_launch @ ex_sends, (ex_launch2 @ ex_sends2) @ ex_done2]"
    using g1 g2 by (simp add: ex_nodesInfo_def) (simp add: ex_nodeInfo_def)
  have n1: "WgDone \<notin> set ex_launch" "Close \<notin> set ex_launch"
    by (simp_all add: ex_launch_def)
  have n2: "WgDone \<notin> set (ex_launch2 @ ex_sends2)" "Close \<notin> set (ex_launch2 @ ex_sends2)"
    by (simp_all add: ex_launch2_def ex_sends2_def)
  have e1: "exec (driver_start (Some Open) [ex_launch @ ex_sends, (ex_launch2 @ ex_sends2) @ ex_done2])
              (map (Pair (NodeRoutine 0)) ex_launch)
              \<lparr>d_pending = [ex_sends, (ex_launch2 @ ex_sends2) @ ex_done2], d_wg = 2,
                d_ch = Some Open, d_done = False\<rparr>"
    using exec_block[where k = 0 and p = ex_launch and cs = ex_sends
        and s = "driver_start (Some Open) [ex_launch @ ex_sends, (ex_launch2 @ ex_sends2) @ ex_done2]",
        OF _ _ n1]
    by (simp add: driver_start_def)
  have e2: "exec \<lparr>d_pending = [ex_sends, (ex_launch2 @ ex_sends2) @ ex_done2], d_wg = 2,
                d_ch = Some Open, d_done = False\<rparr>
              (map (Pair (NodeRoutine 1)) (ex_launch2 @ ex_sends2))
              \<lparr>d_pending = [ex_sends, ex_done2], d_wg = 2, d_ch = Some Open, d_done = False\<rparr>"
    using exec_block[where k = 1 and p = "ex_launch2 @ ex_sends2" and cs = ex_done2
        and s = "\<lparr>d_pending = [ex_sends, (ex_launch2 @ ex_sends2) @ ex_done2], d_wg = 2,
                d_ch = Some Open, d_done = False\<rparr>", OF _ _ n2]
    by simp
  have e3: "exec \<lparr>d_pending = [ex_sends, ex_done2], d_wg = 2, d_ch = Some Open, d_done = False\<rparr>
              (map (Pair (NodeRoutine 0)) ex_sends)
              \<lparr>d_pending = [[], ex_done2], d_wg = 1, d_ch = Some Open, d_done = False\<rparr>"
    using exec_finish[where k = 0
        and p = "[Send (Some ex_message), CallUpdateProcessing ''n1'' 0, CallDeleteProcessing ''n1'']"
        and s = "\<lparr>d_pending = [ex_sends, ex_done2], d_wg = 2, d_ch = Some Open, d_done = False\<rparr>"]
    by (simp add: ex_sends_def)
  have e4: "exec \<lparr>d_pending = [[], ex_done2], d_wg = 1, d_ch = Some Open, d_done = False\<rparr>
              (map (Pair (NodeRoutine 1)) ex_done2)
              \<lparr>d_pending = [[], []], d_wg = 0, d_ch = Some Open, d_done = False\<rparr>"
    using exec_finish[where k = 1 and p = "[CallDeleteProcessing ''n2'']"
        and s = "\<lparr>d_pending = [[], ex_done2], d_wg = 1, d_ch = Some Open, d_done = False\<rparr>"]
    by (simp add: ex_done2_def)
  have e5: "exec \<lparr>d_pending = [[], []], d_wg = 0, d_ch = Some Open, d_done = False\<rparr>
              [(Driver, Close)] ex_final"
    using exec_single[OF step_close[of
          "\<lparr>d_pending = [[], []], d_wg = 0, d_ch = Some Open, d_done = False\<rparr>"]]
    by (simp add: ex_final_def)
  have "exec (driver_start (Some Open) [ex_launch @ ex_sends, (ex_launch2 @ ex_sends2) @ ex_done2])
          ex_run ex_final"
    unfolding ex_run_def
    by (intro exec_append[OF _ e1] exec_append[OF _ e2] exec_append[OF _ e3]
          exec_append[OF _ e4] e5)
  then show ?thesis using driver_exec_intro[OF sp _ ex_final_stuck] by blast
qed

lemma ex_run_is_run: "driver_run ex_world ex_opts ex_nodesInfo ex_run"
  using ex_run_is_exec by (rule driver_run_intro)

lemma ex_nodesInfo_ok: "list_all NodeInfo_ok ex_nodesInfo"
  by (simp add: NodeInfo_ok_def ex_nodeInfo_def ex_nodesInfo_def)



subsection \<open>Every message is sent, then the channel is closed\<close>



subsection \<open>A node launches all its replicas before it sends\<close>

text \<open>
  C10. In every run of the driver, the steps of the goroutine of node \<open>k\<close> are first
  the whole launch log of \<open>doCreateContainerOnNode\<close> for that node (the calls to the
  engine, the store and the locks for all its replicas, rollbacks included), which
  returns the full slice of messages, and only then the rest: the sends of these messages
  in order, with no launch call among them.
\<close>

theorem launches_finish_before_first_send:
  assumes "list_all NodeInfo_ok nodesInfo" and "driver_run world opts nodesInfo t"
    and "k < length nodesInfo"
  shows "\<exists>msgs launch rest.
           doCreateContainerOnNode world (nodesInfo ! k) opts (offset nodesInfo k)
             = Inr (msgs, launch)
         \<and> length msgs = nat (ni_Deploy (nodesInfo ! k))
         \<and> routine k t = launch @ rest
         \<and> list_all is_launch_call launch
         \<and> list_all (\<lambda>c. \<not> is_launch_call c) rest
         \<and> filter is_send rest = map Send msgs"
proof -
  obtain msgs launch where
    r: "doCreateContainerOnNode world (nodesInfo ! k) opts (offset nodesInfo k) = Inr (msgs, launch)"
      "length msgs = nat (ni_Deploy (nodesInfo ! k))"
      "list_all is_launch_call launch"
      "routine k t = launch @ sends (nodesInfo ! k) 0 msgs
                            @ [CallDeleteProcessing (ni_Name (nodesInfo ! k)), WgDone]"
    using run_routine[OF assms] by blast
  let ?rest = "sends (nodesInfo ! k) 0 msgs @ [CallDeleteProcessing (ni_Name (nodesInfo ! k)), WgDone]"
  have "list_all (\<lambda>c. \<not> is_launch_call c) ?rest"
    using sends_not_launch[of "nodesInfo ! k" 0 msgs] by simp
  moreover have "filter is_send ?rest = map Send msgs"
    by (simp add: sends_filter)
  ultimately show ?thesis using r by blast
qed

theorem launches_finish_before_first_send_witness:
  "list_all NodeInfo_ok ex_nodesInfo
   \<and> driver_run ex_world ex_opts ex_nodesInfo ex_run
   \<and> (\<exists>rest. routine 1 ex_run = ex_launch2 @ rest
         \<and> list_all is_launch_call ex_launch2
         \<and> list_all (\<lambda>c. \<not> is_launch_call c) rest
         \<and> filter is_send rest = map Send [Some ex_message2])"
proof -
  have k: "Suc 0 < length ex_nodesInfo" by (simp add: ex_nodesInfo_def)
  have r: "doCreateContainerOnNode ex_world (ex_nodesInfo ! Suc 0) ex_opts
             (offset ex_nodesInfo (Suc 0)) = Inr ([Some ex_message2], ex_launch2)"
    using ex_OnNode2 by (simp add: ex_nodesInfo_def offset_def ex_nodeInfo_def)
  show ?thesis
    using launches_finish_before_first_send[OF ex_nodesInfo_ok ex_run_is_run k]
      ex_nodesInfo_ok ex_run_is_run
    by (simp add: r)
qed

end
